theory Spec2Isabelle
  imports Main "HOL-Library.Char_ord" "HOL-Library.List_Lexorder"
begin

section \<open>Python dictionaries\<close>

text \<open>
  A Python \<^verbatim>\<open>dict\<close> keeps its keys in insertion order, and the aggregation code only ever
  does two things to one: the idiom
  \<^verbatim>\<open>if k not in d: d[k] = default\<close> followed by in-place updates of \<^verbatim>\<open>d[k]\<close>, and
  iteration over \<^verbatim>\<open>d.items()\<close>.  A dictionary is therefore an association list with
  distinct keys; \<open>dict_modify k dflt f d\<close> is the idiom with \<open>f\<close> the in-place update.
\<close>

type_synonym ('k, 'v) dict = "('k \<times> 'v) list"

fun dict_modify :: "'k \<Rightarrow> 'v \<Rightarrow> ('v \<Rightarrow> 'v) \<Rightarrow> ('k, 'v) dict \<Rightarrow> ('k, 'v) dict" where
  "dict_modify k dflt f [] = [(k, f dflt)]"
| "dict_modify k dflt f ((k', v) # kvs) =
     (if k' = k then (k', f v) # kvs else (k', v) # dict_modify k dflt f kvs)"

definition dict_get :: "('k, 'v) dict \<Rightarrow> 'k \<Rightarrow> 'v \<Rightarrow> 'v" where
  "dict_get d k dflt = (case map_of d k of None \<Rightarrow> dflt | Some v \<Rightarrow> v)"

section \<open>The NCR aggregate and the local aggregator\<close>

text \<open>
  A cleaned record of \<^verbatim>\<open>generate_ncr_report_for_eden\<close> (the dictionary
  \<^verbatim>\<open>cleaned_record\<close>).  The two date columns have been turned into text by
  \<^verbatim>\<open>astype(str)\<close>; the model keeps the day number (\<open>None\<close> for \<^verbatim>\<open>NaT\<close>), which
  determines that text.  \<^verbatim>\<open>Days_From_Today\<close> is present for Open reports only.
\<close>

record cleaned_record =
  Description :: string
  Discipline :: string
  Created_Date :: "int option"
  Expected_Close_Date :: "int option"
  Status :: string
  Days :: int
  Tower :: string
  Days_From_Today :: "int option"
  Pours :: "string list"
  Discipline_Category :: string

text \<open>One entry of \<^verbatim>\<open>all_results[report_type]["Sites"]\<close>.\<close>

record site_bucket =
  Descriptions :: "string list"
  Created_Dates :: "int option list"
  Expected_Close_Dates :: "int option list"
  Statuses :: "string list"
  Disciplines :: "string list"
  Pours_lists :: "string list list"
  SW :: int
  FW :: int
  MEP :: int
  Total :: int
  PoursCount :: "(string, int) dict"

record aggregate =
  Sites :: "(string, site_bucket) dict"
  Grand_Total :: int

definition empty_bucket :: site_bucket where
  "empty_bucket = \<lparr>Descriptions = [], Created_Dates = [], Expected_Close_Dates = [],
     Statuses = [], Disciplines = [], Pours_lists = [], SW = 0, FW = 0, MEP = 0, Total = 0,
     PoursCount = []\<rparr>"

definition empty_aggregate :: aggregate where
  "empty_aggregate = \<lparr>Sites = [], Grand_Total = 0\<rparr>"

text \<open>\<^verbatim>\<open>if discipline in ["SW", "FW", "MEP"]: bucket[discipline] += 1\<close>\<close>

definition count_discipline :: "string \<Rightarrow> site_bucket \<Rightarrow> site_bucket" where
  "count_discipline discipline b =
     (if discipline = ''SW'' then b\<lparr>SW := SW b + 1\<rparr>
      else if discipline = ''FW'' then b\<lparr>FW := FW b + 1\<rparr>
      else if discipline = ''MEP'' then b\<lparr>MEP := MEP b + 1\<rparr>
      else b)"

text \<open>\<^verbatim>\<open>for pour in pours: PoursCount[pour] = PoursCount.get(pour, 0) + 1\<close>\<close>

definition count_pours :: "string list \<Rightarrow> (string, int) dict \<Rightarrow> (string, int) dict" where
  "count_pours pours pc = foldl (\<lambda>pc pour. dict_modify pour 0 (\<lambda>c. c + 1) pc) pc pours"

text \<open>The body of the loop of \<^verbatim>\<open>process_chunk_locally\<close> on the bucket of the record's tower.\<close>

definition add_to_bucket :: "cleaned_record \<Rightarrow> site_bucket \<Rightarrow> site_bucket" where
  "add_to_bucket r b =
     (let b1 = b\<lparr>Descriptions := Descriptions b @ [Description r],
                  Created_Dates := Created_Dates b @ [Created_Date r],
                  Expected_Close_Dates := Expected_Close_Dates b @ [Expected_Close_Date r],
                  Statuses := Statuses b @ [Status r],
                  Disciplines := Disciplines b @ [Discipline r],
                  Pours_lists := Pours_lists b @ [Pours r]\<rparr>;
          b2 = count_discipline (Discipline_Category r) b1;
          b3 = b2\<lparr>Total := Total b2 + 1\<rparr>
      in b3\<lparr>PoursCount := count_pours (Pours r) (PoursCount b3)\<rparr>)"

definition process_record_locally :: "aggregate \<Rightarrow> cleaned_record \<Rightarrow> aggregate" where
  "process_record_locally a r =
     \<lparr>Sites = dict_modify (Tower r) empty_bucket (add_to_bucket r) (Sites a),
      Grand_Total = Grand_Total a + 1\<rparr>"

text \<open>
  \<^verbatim>\<open>process_chunk_locally(chunk, all_results, report_type)\<close>.  Every key it reads is
  present in a cleaned record, so its \<^verbatim>\<open>try\<close> never reaches the handler.  The Streamlit
  caching decorators of the source are not part of the model.
\<close>

definition process_chunk_locally :: "cleaned_record list \<Rightarrow> aggregate \<Rightarrow> aggregate" where
  "process_chunk_locally chunk a = foldl process_record_locally a chunk"

section \<open>Merging a remote reply (NCR path)\<close>

text \<open>
  The reply of the completion service is untrusted JSON.  One site entry of
  \<^verbatim>\<open>chunk_result["Sites"]\<close> is modelled with every field optional: \<open>None\<close> stands for a key
  that is missing (\<^verbatim>\<open>KeyError\<close>) or holds a value on which the merge statement raises
  (\<^verbatim>\<open>TypeError\<close>).  \<open>cr_Grand_Total\<close> is the total the service reports.
\<close>

record remote_site =
  rs_Descriptions :: "string list option"
  rs_Created_Dates :: "int option list option"
  rs_Expected_Close_Dates :: "int option list option"
  rs_Statuses :: "string list option"
  rs_Disciplines :: "string list option"
  rs_Pours_lists :: "string list list option"
  rs_SW :: "int option"
  rs_FW :: "int option"
  rs_MEP :: "int option"
  rs_Total :: "int option"
  rs_PoursCount :: "(string, int) dict option"

record chunk_result =
  cr_Sites :: "(string, remote_site) dict option"
  cr_Grand_Total :: "int option"

text \<open>
  A statement sequence that mutates a state and may raise: \<open>Raised s\<close> carries the state
  as it was when the exception left the sequence (mutations done so far persist).
\<close>

datatype 's outcome = Done 's | Raised 's

fun run_steps :: "('s \<Rightarrow> 's option) list \<Rightarrow> 's \<Rightarrow> 's outcome" where
  "run_steps [] s = Done s"
| "run_steps (f # fs) s = (case f s of None \<Rightarrow> Raised s | Some s' \<Rightarrow> run_steps fs s')"

text \<open>The eleven merge statements of the success branch, in source order.\<close>

definition merge_statements :: "remote_site \<Rightarrow> (site_bucket \<Rightarrow> site_bucket option) list" where
  "merge_statements d =
    [\<lambda>b. map_option (\<lambda>x. b\<lparr>Descriptions := Descriptions b @ x\<rparr>) (rs_Descriptions d),
     \<lambda>b. map_option (\<lambda>x. b\<lparr>Created_Dates := Created_Dates b @ x\<rparr>) (rs_Created_Dates d),
     \<lambda>b. map_option (\<lambda>x. b\<lparr>Expected_Close_Dates := Expected_Close_Dates b @ x\<rparr>)
            (rs_Expected_Close_Dates d),
     \<lambda>b. map_option (\<lambda>x. b\<lparr>Statuses := Statuses b @ x\<rparr>) (rs_Statuses d),
     \<lambda>b. map_option (\<lambda>x. b\<lparr>Disciplines := Disciplines b @ x\<rparr>) (rs_Disciplines d),
     \<lambda>b. map_option (\<lambda>x. b\<lparr>Pours_lists := Pours_lists b @ x\<rparr>) (rs_Pours_lists d),
     \<lambda>b. map_option (\<lambda>x. b\<lparr>SW := SW b + x\<rparr>) (rs_SW d),
     \<lambda>b. map_option (\<lambda>x. b\<lparr>FW := FW b + x\<rparr>) (rs_FW d),
     \<lambda>b. map_option (\<lambda>x. b\<lparr>MEP := MEP b + x\<rparr>) (rs_MEP d),
     \<lambda>b. map_option (\<lambda>x. b\<lparr>Total := Total b + x\<rparr>) (rs_Total d),
     \<lambda>b. map_option
            (\<lambda>x. b\<lparr>PoursCount :=
                    foldl (\<lambda>pc (pour, count). dict_modify pour 0 (\<lambda>c. c + count) pc)
                      (PoursCount b) x\<rparr>)
            (rs_PoursCount d)]"

definition bucket_of :: "'s outcome \<Rightarrow> 's" where
  "bucket_of oc = (case oc of Done s \<Rightarrow> s | Raised s \<Rightarrow> s)"

definition is_Done :: "'s outcome \<Rightarrow> bool" where
  "is_Done oc = (case oc of Done _ \<Rightarrow> True | Raised _ \<Rightarrow> False)"

text \<open>
  \<^verbatim>\<open>for site, data in chunk_result["Sites"].items(): ...\<close>: the site is created when
  absent, then the merge statements run on its bucket; an exception ends the loop.
\<close>

fun merge_sites :: "(string, remote_site) dict \<Rightarrow> (string, site_bucket) dict
    \<Rightarrow> (string, site_bucket) dict outcome" where
  "merge_sites [] sites = Done sites"
| "merge_sites ((site, d) # rest) sites =
     (let merge = (\<lambda>b. run_steps (merge_statements d) b);
          sites' = dict_modify site empty_bucket (\<lambda>b. bucket_of (merge b)) sites
      in if is_Done (merge (dict_get sites site empty_bucket))
         then merge_sites rest sites' else Raised sites')"

text \<open>
  What one remote call can come to.  \<open>Response code parsed\<close>: the call returned with
  that status code; \<open>parsed\<close> is \<^verbatim>\<open>parsed_json[report_type]\<close>, or \<open>None\<close> when
  \<^verbatim>\<open>clean_and_parse_json\<close> gave nothing or the report-type key is absent.
\<close>

datatype remote_reply =
    Request_Exception
  | Other_Exception
  | Response nat "chunk_result option"

text \<open>The body of the chunk loop, lines 547 to 617.\<close>

definition process_chunk :: "remote_reply \<Rightarrow> cleaned_record list \<Rightarrow> aggregate \<Rightarrow> aggregate" where
  "process_chunk reply chunk a =
     (case reply of
        Request_Exception \<Rightarrow> process_chunk_locally chunk a
      | Other_Exception \<Rightarrow> process_chunk_locally chunk a
      | Response code parsed \<Rightarrow>
          if code = 200 then
            (case parsed of
               None \<Rightarrow> process_chunk_locally chunk a
             | Some cr \<Rightarrow>
                 (case cr_Sites cr of
                    None \<Rightarrow> process_chunk_locally chunk a
                  | Some rsites \<Rightarrow>
                      (case merge_sites rsites (Sites a) of
                         Done sites' \<Rightarrow>
                           a\<lparr>Sites := sites', Grand_Total := Grand_Total a + int (length chunk)\<rparr>
                       | Raised sites' \<Rightarrow> process_chunk_locally chunk (a\<lparr>Sites := sites'\<rparr>))))
          else process_chunk_locally chunk a)"

text \<open>
  \<^verbatim>\<open>for i in range(0, len(cleaned_data), chunk_size): chunk = cleaned_data[i:i + chunk_size]\<close>
  with the replies of the service given per chunk number.
\<close>

function chunk_loop :: "nat \<Rightarrow> (nat \<Rightarrow> remote_reply) \<Rightarrow> nat \<Rightarrow> cleaned_record list
    \<Rightarrow> aggregate \<Rightarrow> aggregate" where
  "chunk_loop n replies k rs a =
     (if n = 0 \<or> rs = [] then a
      else chunk_loop n replies (Suc k) (drop n rs)
             (process_chunk (replies k) (take n rs) a))"
  by pat_completeness auto
termination
  by (relation "measure (\<lambda>(n, replies, k, rs, a). length rs)") auto

datatype report_error = Error string

text \<open>
  The aggregation stage from line 464 on.  \<^verbatim>\<open>CHUNK_SIZE\<close> comes from the environment:
  a step of zero makes \<^verbatim>\<open>range\<close> raise (caught by the outermost handler), a negative step
  gives an empty range.
\<close>

definition aggregate_chunks :: "int \<Rightarrow> (nat \<Rightarrow> remote_reply) \<Rightarrow> cleaned_record list
    \<Rightarrow> report_error + aggregate" where
  "aggregate_chunks chunk_size replies cleaned_data =
     (if chunk_size = 0 then Inl (Error ''Unexpected Error: range() arg 3 must not be zero'')
      else if chunk_size < 0 then Inr empty_aggregate
      else Inr (chunk_loop (nat chunk_size) replies 0 cleaned_data empty_aggregate))"

definition sum_totals :: "(string, site_bucket) dict \<Rightarrow> int" where
  "sum_totals sites = sum_list (map (\<lambda>(site, b). Total b) sites)"

definition completed_totals :: "report_error + aggregate \<Rightarrow> (int \<times> int) option" where
  "completed_totals res =
     (case res of Inl _ \<Rightarrow> None | Inr a \<Rightarrow> Some (sum_totals (Sites a), Grand_Total a))"

text \<open>\<^verbatim>\<open>cleaned_data[i:i + chunk_size]\<close> for the \<open>j\<close>-th value \<open>i = j * chunk_size\<close> of the range.\<close>

definition nth_chunk :: "nat \<Rightarrow> nat \<Rightarrow> 'a list \<Rightarrow> 'a list" where
  "nth_chunk n j rs = take n (drop (j * n) rs)"

text \<open>
  A site entry on which no merge statement raises, the total it reports, and a reply that
  can be reconciled with its chunk: either it never reaches the merge loop, or all its
  entries are complete and their reported totals add up to the length of the chunk.
\<close>

definition complete_site :: "remote_site \<Rightarrow> bool" where
  "complete_site d \<longleftrightarrow>
     rs_Descriptions d \<noteq> None \<and> rs_Created_Dates d \<noteq> None \<and>
     rs_Expected_Close_Dates d \<noteq> None \<and> rs_Statuses d \<noteq> None \<and>
     rs_Disciplines d \<noteq> None \<and> rs_Pours_lists d \<noteq> None \<and> rs_SW d \<noteq> None \<and>
     rs_FW d \<noteq> None \<and> rs_MEP d \<noteq> None \<and> rs_Total d \<noteq> None \<and> rs_PoursCount d \<noteq> None"

definition reported_total :: "remote_site \<Rightarrow> int" where
  "reported_total d = (case rs_Total d of None \<Rightarrow> 0 | Some t \<Rightarrow> t)"

definition reaches_merge :: "remote_reply \<Rightarrow> (string, remote_site) dict option" where
  "reaches_merge reply =
     (case reply of
        Response code (Some cr) \<Rightarrow> if code = 200 then cr_Sites cr else None
      | _ \<Rightarrow> None)"

definition reply_reconciles :: "cleaned_record list \<Rightarrow> remote_reply \<Rightarrow> bool" where
  "reply_reconciles chunk reply =
     (case reaches_merge reply of
        None \<Rightarrow> True
      | Some rsites \<Rightarrow>
          list_all (\<lambda>(site, d). complete_site d) rsites \<and>
          sum_list (map (\<lambda>(site, d). reported_total d) rsites) = int (length chunk))"

definition site_records :: "string \<Rightarrow> cleaned_record list \<Rightarrow> cleaned_record list" where
  "site_records t chunk = filter (\<lambda>r. Tower r = t) chunk"

definition const_replies :: "'r \<Rightarrow> nat \<Rightarrow> 'r" where
  "const_replies r k = r"

section \<open>Text primitives\<close>

text \<open>
  Descriptions and discipline tags are modelled as strings of 8-bit characters, read as
  Latin-1 code points.  \<open>lower\<close> is \<^verbatim>\<open>str.lower\<close>, \<open>is_space\<close> the characters that
  \<^verbatim>\<open>str.strip\<close> removes and \<^verbatim>\<open>\s\<close> matches, \<open>is_digit\<close> what \<^verbatim>\<open>\d\<close> matches, and
  \<open>contains s k\<close> is \<^verbatim>\<open>k in s\<close>.
\<close>

definition lower_char :: "char \<Rightarrow> char" where
  "lower_char c =
     (let n = (of_char c :: nat)
      in if (65 \<le> n \<and> n \<le> 90) \<or> (192 \<le> n \<and> n \<le> 222 \<and> n \<noteq> 215)
         then char_of (n + 32) else c)"

definition lower :: "string \<Rightarrow> string" where
  "lower s = map lower_char s"

definition is_space :: "char \<Rightarrow> bool" where
  "is_space c =
     (let n = (of_char c :: nat)
      in (9 \<le> n \<and> n \<le> 13) \<or> (28 \<le> n \<and> n \<le> 32) \<or> n = 133 \<or> n = 160)"

definition is_digit :: "char \<Rightarrow> bool" where
  "is_digit c = (let n = (of_char c :: nat) in 48 \<le> n \<and> n \<le> 57)"

definition strip :: "string \<Rightarrow> string" where
  "strip s = rev (dropWhile is_space (rev (dropWhile is_space s)))"

fun starts_with :: "string \<Rightarrow> string \<Rightarrow> bool" where
  "starts_with s [] = True"
| "starts_with [] (k # ks) = False"
| "starts_with (c # s) (k # ks) = (c = k \<and> starts_with s ks)"

fun contains :: "string \<Rightarrow> string \<Rightarrow> bool" where
  "contains [] k = (k = [])"
| "contains (c # s) k = (starts_with (c # s) k \<or> contains s k)"

section \<open>Safety and Housekeeping chunk processing\<close>

text \<open>
  \<^verbatim>\<open>generate_ncr_Safety_report_for_eden\<close> and
  \<^verbatim>\<open>generate_ncr_Housekeeping_report_for_eden\<close> process a chunk with the same statements;
  they differ in the keyword list and in the guard of the local fallback.  A cleaned
  record of these paths: \<open>h_Days\<close> is the value of the \<^verbatim>\<open>Days\<close> column (\<open>None\<close> for
  \<^verbatim>\<open>NaN\<close>, which compares false), \<open>h_Days_From_Today\<close> is set for Open reports only.
\<close>

record hse_record =
  h_Description :: string
  h_Created_Date :: "int option"
  h_Expected_Close_Date :: "int option"
  h_Status :: string
  h_Days :: "int option"
  h_Discipline :: string
  h_Tower :: string
  h_Days_From_Today :: "int option"

record hse_bucket =
  Count :: int
  hb_Descriptions :: "string list"
  hb_Created_Dates :: "int option list"
  hb_Expected_Close_Dates :: "int option list"
  hb_Statuses :: "string list"

record hse_aggregate =
  hse_Sites :: "(string, hse_bucket) dict"
  hse_Grand_Total :: int

definition empty_hse_bucket :: hse_bucket where
  "empty_hse_bucket = \<lparr>Count = 0, hb_Descriptions = [], hb_Created_Dates = [],
     hb_Expected_Close_Dates = [], hb_Statuses = []\<rparr>"

definition empty_hse_aggregate :: hse_aggregate where
  "empty_hse_aggregate = \<lparr>hse_Sites = [], hse_Grand_Total = 0\<rparr>"

definition housekeeping_keywords :: "string list" where
  "housekeeping_keywords =
    [''housekeeping'',
     ''cleaning'',
     ''cleanliness'',
     ''waste disposal'',
     ''waste management'',
     ''garbage'',
     ''trash'',
     ''rubbish'',
     ''debris'',
     ''litter'',
     ''dust'',
     ''untidy'',
     ''cluttered'',
     ''accumulation of waste'',
     ''construction waste'',
     ''pile of garbage'',
     ''poor housekeeping'',
     ''material storage'',
     ''construction debris'',
     ''cleaning schedule'',
     ''garbage collection'',
     ''waste bins'',
     ''dirty'',
     ''mess'',
     ''unclean'',
     ''disorderly'',
     ''dirty floor'',
     ''waste disposal area'',
     ''waste collection'',
     ''cleaning protocol'',
     ''sanitation'',
     ''trash removal'',
     ''waste accumulation'',
     ''unkept area'',
     ''refuse collection'',
     ''workplace cleanliness'']"
text \<open>
  The one keyword with a character outside Latin-1 (an en dash) is written with the
  three bytes of its UTF-8 form; it contains capitals, as five other keywords do, and the
  text searched is lower-cased.
\<close>

definition safety_keywords :: "string list" where
  "safety_keywords =
    [''safety precautions'',
     ''temporary electricity'',
     ''on-site labor is working without wearing safety belt'',
     ''safety norms'',
     ''Missing Cabin Glass '' @ [CHR 0xE2, CHR 0x80, CHR 0x93] @ '' Tower Crane'',
     ''Crane Operator cabin front glass'',
     ''site on priority basis lifeline is not fixed at the working place'',
     ''operated only after Third Party Inspection and certification crane operated without TPIC'',
     ''safety precautions are not taken seriously at site Tower crane operator cabin front glass is missing while crane operator is working inside cabin'',
     ''no barrier around'',
     ''Lock and Key arrangement to restrict unauthorized operations, buzzer while operation, gates at landing platforms, catch net in the vicinity'',
     ''safety precautions are not taken seriously'',
     ''firecase'',
     ''Health and Safety Plan'',
     ''noticed that submission of statistics report is regularly delayed'',
     ''crane operator cabin front glass is missing while crane operator is working inside cabin'',
     ''labor is working without wearing safety belt'',
     ''barricading'',
     ''tank'',
     ''safety shoes'',
     ''safety belt'',
     ''helmet'',
     ''lifeline'',
     ''guard rails'',
     ''fall protection'',
     ''PPE'',
     ''electrical hazard'',
     ''unsafe platform'',
     ''catch net'',
     ''edge protection'',
     ''TPI'',
     ''scaffold'',
     ''lifting equipment'',
     ''dust suppression'',
     ''debris chute'',
     ''spill control'',
     ''crane operator'',
     ''halogen lamps'',
     ''fall catch net'',
     ''environmental contamination'',
     ''fire hazard'',
     '' continuous down slope movement of soil'',
     ''continuous collapse of soil leading '']"

definition is_housekeeping_record :: "string \<Rightarrow> bool" where
  "is_housekeeping_record description =
     list_ex (\<lambda>keyword. contains (lower description) keyword) housekeeping_keywords"

definition is_safety_record :: "string \<Rightarrow> bool" where
  "is_safety_record description =
     list_ex (\<lambda>keyword. contains (lower description) keyword) safety_keywords"

text \<open>\<^verbatim>\<open>record.get(key, 0) > 7\<close>, with \<open>None\<close> for an absent key or \<^verbatim>\<open>NaN\<close>.\<close>

definition exceeds_7 :: "int option \<Rightarrow> bool" where
  "exceeds_7 v = (case v of None \<Rightarrow> False | Some d \<Rightarrow> d > 7)"

definition housekeeping_guard :: "hse_record \<Rightarrow> bool" where
  "housekeeping_guard r \<longleftrightarrow>
     is_housekeeping_record (h_Description r) \<and>
     (exceeds_7 (h_Days r) \<or> exceeds_7 (h_Days_From_Today r)) \<and>
     h_Discipline r = ''HSE''"

text \<open>
  The Safety fallback reads the key \<^verbatim>\<open>Days_From_Reference\<close>, which no cleaned record
  has: the lookup always gives its default.
\<close>

definition safety_guard :: "hse_record \<Rightarrow> bool" where
  "safety_guard r \<longleftrightarrow>
     is_safety_record (h_Description r) \<and>
     (exceeds_7 (h_Days r) \<or> exceeds_7 None) \<and>
     h_Discipline r = ''HSE''"

definition hse_count_record :: "hse_record \<Rightarrow> hse_aggregate \<Rightarrow> hse_aggregate" where
  "hse_count_record r a =
     \<lparr>hse_Sites = dict_modify (h_Tower r) empty_hse_bucket
        (\<lambda>b. b\<lparr>hb_Descriptions := hb_Descriptions b @ [h_Description r],
                hb_Created_Dates := hb_Created_Dates b @ [h_Created_Date r],
                hb_Expected_Close_Dates := hb_Expected_Close_Dates b @ [h_Expected_Close_Date r],
                hb_Statuses := hb_Statuses b @ [h_Status r],
                Count := Count b + 1\<rparr>)
        (hse_Sites a),
      hse_Grand_Total = hse_Grand_Total a + 1\<rparr>"

text \<open>The fallback loop, written out six times in each of the two functions.\<close>

definition hse_fallback :: "(hse_record \<Rightarrow> bool) \<Rightarrow> hse_record list \<Rightarrow> hse_aggregate
    \<Rightarrow> hse_aggregate" where
  "hse_fallback guard chunk a = foldl (\<lambda>a r. if guard r then hse_count_record r a else a) a chunk"

text \<open>
  A site entry of the reply; every field is read with \<^verbatim>\<open>.get\<close> and a default.  An
  entry that is not a dictionary (\<open>None\<close> in \<open>hcr_Sites\<close>) is skipped.
\<close>

record hse_remote_site =
  hr_Descriptions :: "string list option"
  hr_Created_Dates :: "int option list option"
  hr_Expected_Close_Dates :: "int option list option"
  hr_Statuses :: "string list option"
  hr_Count :: "int option"

record hse_chunk_result =
  hcr_Sites :: "(string, hse_remote_site option) dict option"
  hcr_Grand_Total :: "int option"

definition get_or :: "'a option \<Rightarrow> 'a \<Rightarrow> 'a" where
  "get_or v dflt = (case v of None \<Rightarrow> dflt | Some x \<Rightarrow> x)"

definition hse_merge_site :: "hse_remote_site \<Rightarrow> hse_bucket \<Rightarrow> hse_bucket" where
  "hse_merge_site v b =
     b\<lparr>hb_Descriptions := hb_Descriptions b @ get_or (hr_Descriptions v) [],
       hb_Created_Dates := hb_Created_Dates b @ get_or (hr_Created_Dates v) [],
       hb_Expected_Close_Dates := hb_Expected_Close_Dates b @ get_or (hr_Expected_Close_Dates v) [],
       hb_Statuses := hb_Statuses b @ get_or (hr_Statuses v) [],
       Count := Count b + get_or (hr_Count v) 0\<rparr>"

definition hse_merge_sites :: "(string, hse_remote_site option) dict \<Rightarrow> (string, hse_bucket) dict
    \<Rightarrow> (string, hse_bucket) dict" where
  "hse_merge_sites chunk_sites sites =
     foldl (\<lambda>sites (site, values).
              case values of
                None \<Rightarrow> sites
              | Some v \<Rightarrow> dict_modify site empty_hse_bucket (hse_merge_site v) sites)
       sites chunk_sites"

text \<open>
  \<open>HSE_Response code parsed\<close>: the call returned with that status; \<open>parsed\<close> is the value
  under the report key of the first balanced JSON object of the generated text, \<open>None\<close>
  when there is no such object or \<^verbatim>\<open>json.loads\<close> rejects it.
\<close>

datatype hse_reply =
    Read_Timeout
  | Connection_Error
  | HSE_Response nat "hse_chunk_result option"

definition hse_process_chunk :: "(hse_record \<Rightarrow> bool) \<Rightarrow> hse_reply \<Rightarrow> hse_record list
    \<Rightarrow> hse_aggregate \<Rightarrow> hse_aggregate" where
  "hse_process_chunk guard reply chunk a =
     (case reply of
        Read_Timeout \<Rightarrow> hse_fallback guard chunk a
      | Connection_Error \<Rightarrow> hse_fallback guard chunk a
      | HSE_Response code parsed \<Rightarrow>
          if code = 200 then
            (case parsed of
               None \<Rightarrow> hse_fallback guard chunk a
             | Some chunk_result \<Rightarrow>
                 \<lparr>hse_Sites = hse_merge_sites (get_or (hcr_Sites chunk_result) []) (hse_Sites a),
                  hse_Grand_Total = hse_Grand_Total a + get_or (hcr_Grand_Total chunk_result) 0\<rparr>)
          else hse_fallback guard chunk a)"

definition safety_process_chunk :: "hse_reply \<Rightarrow> hse_record list \<Rightarrow> hse_aggregate
    \<Rightarrow> hse_aggregate" where
  "safety_process_chunk = hse_process_chunk safety_guard"

definition housekeeping_process_chunk :: "hse_reply \<Rightarrow> hse_record list \<Rightarrow> hse_aggregate
    \<Rightarrow> hse_aggregate" where
  "housekeeping_process_chunk = hse_process_chunk housekeeping_guard"

definition hse_reply_parsed :: "hse_reply \<Rightarrow> hse_chunk_result option" where
  "hse_reply_parsed reply =
     (case reply of
        HSE_Response code (Some cr) \<Rightarrow> if code = 200 then Some cr else None
      | _ \<Rightarrow> None)"

section \<open>Example inputs\<close>

definition example_record :: cleaned_record where
  "example_record = \<lparr>Description = ''Crack in slab at tower 4'', Discipline = ''SW'',
     Created_Date = Some 0, Expected_Close_Date = Some 30, Status = ''Closed'', Days = 30,
     Tower = ''Eden-Tower-04'', Days_From_Today = None, Pours = [''Common''],
     Discipline_Category = ''SW''\<rparr>"

text \<open>A well-formed reply for a chunk of one record that reports five records for the site.\<close>

definition inflated_site :: remote_site where
  "inflated_site = \<lparr>rs_Descriptions = Some [''Crack in slab at tower 4''],
     rs_Created_Dates = Some [Some 0], rs_Expected_Close_Dates = Some [Some 30],
     rs_Statuses = Some [''Closed''], rs_Disciplines = Some [''SW''],
     rs_Pours_lists = Some [[''Common'']], rs_SW = Some 1, rs_FW = Some 0, rs_MEP = Some 0,
     rs_Total = Some 5, rs_PoursCount = Some [(''Common'', 1)]\<rparr>"

definition inflated_reply :: remote_reply where
  "inflated_reply = Response 200
     (Some \<lparr>cr_Sites = Some [(''Eden-Tower-04'', inflated_site)], cr_Grand_Total = Some 1\<rparr>)"

text \<open>An HSE record, closed after ten days, whose description has no safety keyword.\<close>

definition unkeyed_record :: hse_record where
  "unkeyed_record = \<lparr>h_Description = ''Water leakage near lift lobby'',
     h_Created_Date = Some 0, h_Expected_Close_Date = Some 10, h_Status = ''Closed'',
     h_Days = Some 10, h_Discipline = ''HSE'', h_Tower = ''Common_Area'',
     h_Days_From_Today = None\<rparr>"

definition overcounting_result :: hse_chunk_result where
  "overcounting_result = \<lparr>hcr_Sites = None, hcr_Grand_Total = Some 7\<rparr>"

section \<open>Counting lemmas for the aggregators\<close>

lemma map_of_dict_modify:
  "map_of (dict_modify k dflt f kvs) k' =
     (if k' = k then Some (f (dict_get kvs k dflt)) else map_of kvs k')"
  by (induction kvs) (auto simp: dict_get_def)

lemma dict_get_dict_modify:
  "dict_get (dict_modify k dflt f kvs) k' d' =
     (if k' = k then f (dict_get kvs k dflt) else dict_get kvs k' d')"
  by (simp add: dict_get_def map_of_dict_modify)

lemma sum_totals_dict_modify:
  "Total dflt = 0 \<Longrightarrow> sum_totals (dict_modify k dflt f kvs) =
     sum_totals kvs + (Total (f (dict_get kvs k dflt)) - Total (dict_get kvs k dflt))"
  by (induction kvs) (auto simp: sum_totals_def dict_get_def)

lemma Total_count_discipline [simp]: "Total (count_discipline c b) = Total b"
  by (simp add: count_discipline_def)

lemma Total_add_to_bucket [simp]: "Total (add_to_bucket r b) = Total b + 1"
  by (simp add: add_to_bucket_def Let_def)

lemma Descriptions_count_discipline [simp]: "Descriptions (count_discipline c b) = Descriptions b"
  by (simp add: count_discipline_def)

lemma Descriptions_add_to_bucket [simp]:
  "Descriptions (add_to_bucket r b) = Descriptions b @ [Description r]"
  by (simp add: add_to_bucket_def Let_def)

lemma Total_empty_bucket [simp]: "Total empty_bucket = 0"
  by (simp add: empty_bucket_def)

lemma process_record_locally_totals:
  "Grand_Total (process_record_locally a r) = Grand_Total a + 1"
  "sum_totals (Sites (process_record_locally a r)) = sum_totals (Sites a) + 1"
  by (simp_all add: process_record_locally_def sum_totals_dict_modify)

lemma process_chunk_locally_Grand_Total:
  "Grand_Total (process_chunk_locally chunk a) = Grand_Total a + int (length chunk)"
  unfolding process_chunk_locally_def
  by (induction chunk arbitrary: a) (simp_all add: process_record_locally_totals)

lemma process_chunk_locally_sum_totals:
  "sum_totals (Sites (process_chunk_locally chunk a)) = sum_totals (Sites a) + int (length chunk)"
  unfolding process_chunk_locally_def
  by (induction chunk arbitrary: a) (simp_all add: process_record_locally_totals)


lemma process_chunk_locally_site:
  "Total (dict_get (Sites (process_chunk_locally chunk a)) t empty_bucket) =
     Total (dict_get (Sites a) t empty_bucket) + int (length (site_records t chunk))"
  "Descriptions (dict_get (Sites (process_chunk_locally chunk a)) t empty_bucket) =
     Descriptions (dict_get (Sites a) t empty_bucket) @ map Description (site_records t chunk)"
  unfolding process_chunk_locally_def site_records_def
  by (induction chunk arbitrary: a)
     (simp_all add: process_record_locally_def dict_get_dict_modify)

lemma process_chunk_Grand_Total:
  "Grand_Total (process_chunk reply chunk a) = Grand_Total a + int (length chunk)"
  by (simp add: process_chunk_def process_chunk_locally_Grand_Total
      split: remote_reply.splits option.splits outcome.splits)

lemma chunk_loop_Grand_Total:
  "0 < n \<Longrightarrow> Grand_Total (chunk_loop n replies k rs a) = Grand_Total a + int (length rs)"
proof (induction n replies k rs a rule: chunk_loop.induct)
  case (1 n replies k rs a)
  show ?case
  proof (cases "rs = []")
    case True
    then show ?thesis by simp
  next
    case False
    with 1 have "Grand_Total (chunk_loop n replies (Suc k) (drop n rs)
        (process_chunk (replies k) (take n rs) a))
      = Grand_Total (process_chunk (replies k) (take n rs) a) + int (length (drop n rs))"
      by simp
    with False 1(2) show ?thesis
      by (subst chunk_loop.simps) (simp add: process_chunk_Grand_Total min_def)
  qed
qed


lemma run_steps_merge_complete:
  assumes "complete_site d"
  shows "\<exists>b'. run_steps (merge_statements d) b = Done b' \<and> Total b' = Total b + reported_total d"
  using assms
  by (auto simp: complete_site_def merge_statements_def reported_total_def)

lemma merge_sites_complete:
  "list_all (\<lambda>(site, d). complete_site d) rsites \<Longrightarrow>
   \<exists>sites'. merge_sites rsites sites = Done sites' \<and>
     sum_totals sites' = sum_totals sites + sum_list (map (\<lambda>(site, d). reported_total d) rsites)"
proof (induction rsites arbitrary: sites)
  case Nil
  then show ?case by simp
next
  case (Cons p rsites)
  obtain site d where p: "p = (site, d)" by (cases p)
  from Cons.prems p have c: "complete_site d" by simp
  have st: "\<And>b. \<exists>b'. run_steps (merge_statements d) b = Done b' \<and>
      Total b' = Total b + reported_total d"
    using run_steps_merge_complete [OF c] by blast
  have done_any: "\<And>b. is_Done (run_steps (merge_statements d) b)"
    using st by (metis is_Done_def outcome.simps(5))
  have tot: "\<And>b. Total (bucket_of (run_steps (merge_statements d) b)) = Total b + reported_total d"
    using st by (metis bucket_of_def outcome.simps(5))
  let ?sites' = "dict_modify site empty_bucket
      (\<lambda>b. bucket_of (run_steps (merge_statements d) b)) sites"
  have s1: "sum_totals ?sites' = sum_totals sites + reported_total d"
    by (simp add: sum_totals_dict_modify tot)
  from Cons.prems p have "list_all (\<lambda>(site, d). complete_site d) rsites" by simp
  from Cons.IH [OF this, of ?sites'] obtain sites'' where
    "merge_sites rsites ?sites' = Done sites''"
    "sum_totals sites'' = sum_totals ?sites'
       + sum_list (map (\<lambda>(site, d). reported_total d) rsites)"
    by blast
  then show ?case
    using p s1 done_any by (simp add: Let_def)
qed

lemma process_chunk_sum_totals:
  assumes "reply_reconciles chunk reply"
  shows "sum_totals (Sites (process_chunk reply chunk a)) = sum_totals (Sites a) + int (length chunk)"
proof (cases "reaches_merge reply")
  case None
  then have "process_chunk reply chunk a = process_chunk_locally chunk a"
    by (auto simp: process_chunk_def reaches_merge_def
        split: remote_reply.splits option.splits if_splits)
  then show ?thesis by (simp add: process_chunk_locally_sum_totals)
next
  case (Some rsites)
  with assms have c: "list_all (\<lambda>(site, d). complete_site d) rsites"
    and t: "sum_list (map (\<lambda>(site, d). reported_total d) rsites) = int (length chunk)"
    by (simp_all add: reply_reconciles_def)
  from merge_sites_complete [OF c, of "Sites a"] obtain sites' where
    m: "merge_sites rsites (Sites a) = Done sites'"
    and s: "sum_totals sites' = sum_totals (Sites a)
       + sum_list (map (\<lambda>(site, d). reported_total d) rsites)"
    by blast
  from Some m have "process_chunk reply chunk a =
      a\<lparr>Sites := sites', Grand_Total := Grand_Total a + int (length chunk)\<rparr>"
    by (auto simp: process_chunk_def reaches_merge_def
        split: remote_reply.splits option.splits if_splits)
  with s t show ?thesis by simp
qed

lemma chunk_loop_sum_totals:
  "0 < n \<Longrightarrow> (\<And>j. reply_reconciles (nth_chunk n j rs) (replies (k + j))) \<Longrightarrow>
   sum_totals (Sites (chunk_loop n replies k rs a)) = sum_totals (Sites a) + int (length rs)"
proof (induction n replies k rs a rule: chunk_loop.induct)
  case (1 n replies k rs a)
  show ?case
  proof (cases "rs = []")
    case True
    then show ?thesis by simp
  next
    case False
    have r0: "reply_reconciles (take n rs) (replies k)"
      using 1(3) [of 0] by (simp add: nth_chunk_def)
    have rest: "\<And>j. reply_reconciles (nth_chunk n j (drop n rs)) (replies (Suc k + j))"
      using 1(3) by (metis add_Suc_shift drop_drop mult_Suc nth_chunk_def add.commute)
    from False 1(2) have "sum_totals (Sites (chunk_loop n replies (Suc k) (drop n rs)
        (process_chunk (replies k) (take n rs) a)))
      = sum_totals (Sites (process_chunk (replies k) (take n rs) a)) + int (length (drop n rs))"
      using 1(1) rest by simp
    with False 1(2) show ?thesis
      by (subst chunk_loop.simps) (simp add: process_chunk_sum_totals [OF r0] min_def)
  qed
qed

lemma hse_fallback_Grand_Total:
  "hse_Grand_Total (hse_fallback guard chunk a) = hse_Grand_Total a + int (length (filter guard chunk))"
  unfolding hse_fallback_def
  by (induction chunk arbitrary: a) (simp_all add: hse_count_record_def)

section \<open>Claims about the aggregation stage\<close>









section \<open>Discipline categorization\<close>

text \<open>
  Lines 379 to 393 of \<^verbatim>\<open>generate_ncr_report_for_eden\<close>: what the cleaning loop does with
  the discipline tag of a record.  \<open>Invalid_Discipline\<close> and \<open>HSE_Skipped\<close> are the two
  \<^verbatim>\<open>continue\<close> branches (the record is left out of \<^verbatim>\<open>cleaned_data\<close>); \<open>Kept c\<close> sets
  \<^verbatim>\<open>Discipline_Category\<close> to \<open>c\<close>.
\<close>

datatype discipline_outcome = Invalid_Discipline | HSE_Skipped | Kept string

definition categorize_discipline :: "string \<Rightarrow> discipline_outcome" where
  "categorize_discipline tag =
     (let discipline = lower (strip tag)
      in if discipline = ''none'' \<or> discipline = [] then Invalid_Discipline
         else if contains discipline ''hse'' then HSE_Skipped
         else if contains discipline ''structure'' \<or> contains discipline ''sw'' then Kept ''SW''
         else if contains discipline ''civil'' \<or> contains discipline ''finishing''
                 \<or> contains discipline ''fw'' then Kept ''FW''
         else Kept ''MEP'')"

text \<open>
  C6, as the code has it.  With \<open>d\<close> the tag trimmed and lower-cased: the record is
  dropped exactly when \<open>d\<close> is empty or \<open>none\<close>; it is classified HSE and skipped exactly
  when \<open>d\<close> contains \<open>hse\<close>; it is SW exactly when \<open>d\<close> has no \<open>hse\<close> and contains
  \<open>structure\<close> or \<open>sw\<close>; FW exactly when it has none of these and contains \<open>civil\<close>,
  \<open>finishing\<close> or \<open>fw\<close>; and MEP exactly when it is a valid tag with none of the six
  keywords.
\<close>

theorem C6_discipline_cascade:
  fixes tag :: string
  defines "d \<equiv> lower (strip tag)"
  shows "(categorize_discipline tag = Invalid_Discipline \<longleftrightarrow> d = [] \<or> d = ''none'') \<and>
    (categorize_discipline tag = HSE_Skipped \<longleftrightarrow> contains d ''hse'') \<and>
    (categorize_discipline tag = Kept ''SW'' \<longleftrightarrow>
       \<not> contains d ''hse'' \<and> (contains d ''structure'' \<or> contains d ''sw'')) \<and>
    (categorize_discipline tag = Kept ''FW'' \<longleftrightarrow>
       \<not> contains d ''hse'' \<and> \<not> contains d ''structure'' \<and> \<not> contains d ''sw'' \<and>
       (contains d ''civil'' \<or> contains d ''finishing'' \<or> contains d ''fw'')) \<and>
    (categorize_discipline tag = Kept ''MEP'' \<longleftrightarrow>
       d \<noteq> [] \<and> d \<noteq> ''none'' \<and> \<not> contains d ''hse'' \<and> \<not> contains d ''structure'' \<and>
       \<not> contains d ''sw'' \<and> \<not> contains d ''civil'' \<and> \<not> contains d ''finishing'' \<and>
       \<not> contains d ''fw'')"
  by (auto simp: categorize_discipline_def Let_def d_def)

theorem C6_witness:
  "categorize_discipline ''Structure Works'' = Kept ''SW'' \<and>
   categorize_discipline '' HSE Safety '' = HSE_Skipped \<and>
   categorize_discipline ''None'' = Invalid_Discipline"
proof -
  have d1: "lower (strip ''Structure Works'') = ''structure works''"
    by code_simp
  have d2: "lower (strip '' HSE Safety '') = ''hse safety''"
    by code_simp
  have d3: "lower (strip ''None'') = ''none''"
    by code_simp
  from C6_discipline_cascade [of "''Structure Works''"]
    C6_discipline_cascade [of "'' HSE Safety ''"]
    C6_discipline_cascade [of "''None''"]
  show ?thesis
    unfolding d1 d2 d3 by simp
qed

text \<open>
  C6 as stated fails: the tag \<open>Structural Works\<close> contains neither \<open>structure\<close> nor
  \<open>sw\<close> and falls to the default category.
\<close>

theorem C6_counterexample:
  "categorize_discipline ''Structural Works'' = Kept ''MEP''"
  by code_simp

section \<open>Regular expressions\<close>

text \<open>
  The text classifier is written with Python's \<^verbatim>\<open>re\<close> module.  Its patterns use literal
  text, character classes of \<^verbatim>\<open>\d\<close>, \<^verbatim>\<open>\s\<close> and single characters, greedy \<^verbatim>\<open>*\<close>,
  \<^verbatim>\<open>+\<close> on a class, \<^verbatim>\<open>?\<close>, alternation, capturing groups and one negative
  lookahead; every pattern is compiled with \<^verbatim>\<open>re.IGNORECASE\<close>.  \<open>rmatch r s c\<close> lists
  every way \<open>r\<close> matches a prefix of \<open>s\<close>, as the remaining text and the groups
  captured, in the order in which the backtracking matcher tries them: the first entry
  is the match that \<^verbatim>\<open>re\<close> reports.
\<close>

datatype atom = Lit char | Digit | Space

fun atom_matches :: "atom \<Rightarrow> char \<Rightarrow> bool" where
  "atom_matches (Lit k) c = (lower_char c = lower_char k)"
| "atom_matches Digit c = is_digit c"
| "atom_matches Space c = is_space c"

definition in_class :: "atom list \<Rightarrow> char \<Rightarrow> bool" where
  "in_class cls c = list_ex (\<lambda>a. atom_matches a c) cls"

datatype regex =
    Str string
  | One "atom list"
  | Star "atom list"
  | Plus "atom list"
  | Opt regex
  | Seq regex regex
  | Alt regex regex
  | Group nat regex
  | Not_Ahead regex

type_synonym captures = "(nat \<times> string) list"

fun star_splits :: "atom list \<Rightarrow> string \<Rightarrow> string list" where
  "star_splits cls [] = [[]]"
| "star_splits cls (x # xs) =
     (if in_class cls x then star_splits cls xs @ [x # xs] else [x # xs])"

fun rmatch :: "regex \<Rightarrow> string \<Rightarrow> captures \<Rightarrow> (string \<times> captures) list" where
  "rmatch (Str k) s c =
     (if starts_with (lower s) (lower k) then [(drop (length k) s, c)] else [])"
| "rmatch (One cls) s c =
     (case s of [] \<Rightarrow> [] | x # xs \<Rightarrow> if in_class cls x then [(xs, c)] else [])"
| "rmatch (Star cls) s c = map (\<lambda>rest. (rest, c)) (star_splits cls s)"
| "rmatch (Plus cls) s c =
     (case s of
        [] \<Rightarrow> []
      | x # xs \<Rightarrow> if in_class cls x then map (\<lambda>rest. (rest, c)) (star_splits cls xs) else [])"
| "rmatch (Opt r) s c = rmatch r s c @ [(s, c)]"
| "rmatch (Seq r1 r2) s c = concat (map (\<lambda>(s', c'). rmatch r2 s' c') (rmatch r1 s c))"
| "rmatch (Alt r1 r2) s c = rmatch r1 s c @ rmatch r2 s c"
| "rmatch (Group i r) s c =
     map (\<lambda>(s', c'). (s', (i, take (length s - length s') s) # c')) (rmatch r s c)"
| "rmatch (Not_Ahead r) s c = (if rmatch r s c = [] then [(s, c)] else [])"

text \<open>A pattern written as the sequence of its parts.\<close>

fun seqs :: "regex list \<Rightarrow> regex" where
  "seqs [] = Str []"
| "seqs [r] = r"
| "seqs (r # rs) = Seq r (seqs rs)"

text \<open>\<^verbatim>\<open>m.group(i)\<close>; group 0 is the whole match.  An unset group reads as empty text.\<close>

definition group :: "captures \<Rightarrow> nat \<Rightarrow> string" where
  "group c i = (case map_of c i of None \<Rightarrow> [] | Some g \<Rightarrow> g)"

text \<open>
  \<^verbatim>\<open>re.search\<close> gives the match at the leftmost position that has one;
  \<^verbatim>\<open>re.findall\<close> collects the matches from left to right, resuming where the last one
  ended (one character further after an empty match).
\<close>

fun research :: "regex \<Rightarrow> string \<Rightarrow> captures option" where
  "research r [] = (case rmatch r [] [] of [] \<Rightarrow> None | (s', c) # _ \<Rightarrow> Some c)"
| "research r (x # xs) =
     (case rmatch r (x # xs) [] of [] \<Rightarrow> research r xs | (s', c) # _ \<Rightarrow> Some c)"

function findall :: "regex \<Rightarrow> string \<Rightarrow> captures list" where
  "findall r s =
     (case rmatch r s [] of
        [] \<Rightarrow> (case s of [] \<Rightarrow> [] | x # xs \<Rightarrow> findall r xs)
      | (s', c) # _ \<Rightarrow>
          ((0, take (length s - length s') s) # c) #
            (if length s' < length s then findall r s'
             else (case s of [] \<Rightarrow> [] | x # xs \<Rightarrow> findall r xs)))"
  by pat_completeness auto
termination
  by (relation "measure (\<lambda>(r, s). length s)") auto

section \<open>The text classifier\<close>

text \<open>The patterns of lines 306 to 411, applied to the lower-cased description.\<close>

definition pour_word :: regex where "pour_word = Alt (Str ''pour'') (Str ''p'')"
definition dash_space :: regex where "dash_space = Star [Lit CHR ''-'', Space]"
definition to_or_dash :: regex where "to_or_dash = Alt (Str ''to'') (Str ''-'')"
definition digits :: regex where "digits = Plus [Digit]"

definition common_pattern :: regex where
  "common_pattern = Alt (Str ''common area'') (seqs [Str ''flat'', Star [Space], Str ''no''])"

definition range_pattern :: regex where
  "range_pattern = seqs [pour_word, dash_space, Group 1 digits, dash_space, to_or_dash,
     dash_space, Group 2 digits]"

definition list_pattern :: regex where
  "list_pattern = seqs [pour_word, dash_space,
     Group 1 (Plus [Digit, Lit CHR '','', Space, Lit CHR ''&'', Lit CHR ''a'', Lit CHR ''n'',
       Lit CHR ''d''])]"

definition individual_pattern :: regex where
  "individual_pattern = seqs [pour_word, dash_space, Group 1 digits,
     Not_Ahead (seqs [Star [Space], to_or_dash, Star [Space], digits])]"

definition tower_word :: regex where "tower_word = Alt (Str ''tower'') (Str ''t'')"

definition tower_pattern :: regex where
  "tower_pattern = seqs [Group 1 tower_word, Star [Space], Opt (Str ''-''), Star [Space],
     Group 2 digits]"

definition multiple_tower_pattern :: regex where
  "multiple_tower_pattern = seqs [Group 1 tower_word, Star [Space], Opt (Str ''-''),
     Star [Space], Group 2 digits, Star [Space],
     Group 3 (Alt (One [Lit CHR '','', Lit CHR ''&'']) (Str ''and'')), Star [Space],
     Opt (Group 4 tower_word), Star [Space], Opt (Str ''-''), Star [Space], Group 5 digits]"

definition flat_no_pattern :: regex where
  "flat_no_pattern = seqs [Str ''flat'', Star [Space], Str ''no'']"

text \<open>
  \<^verbatim>\<open>int(num_str)\<close> on a run of digits, and the decimal text of a number as an f-string
  writes it.
\<close>

definition int_of_digits :: "string \<Rightarrow> nat" where
  "int_of_digits ds = foldl (\<lambda>n c. 10 * n + (of_char c - 48)) 0 ds"

definition digit_char :: "nat \<Rightarrow> char" where
  "digit_char n = char_of (48 + n)"

function show_nat :: "nat \<Rightarrow> string" where
  "show_nat n = (if n < 10 then [digit_char n] else show_nat (n div 10) @ [digit_char (n mod 10)])"
  by pat_completeness auto
termination
  by (relation "measure id") auto

text \<open>
  Pour extraction, lines 328 to 377.  The set \<^verbatim>\<open>pours\<close> is kept as a list; the result is
  \<^verbatim>\<open>sorted(list(pours))\<close>, the strings in lexicographic order without repetition.
\<close>

definition pour_label :: "nat \<Rightarrow> string" where
  "pour_label n = ''P'' @ show_nat n"

definition expand_range :: "captures \<Rightarrow> string list" where
  "expand_range m =
     (let start_num = int_of_digits (group m 1); end_num = int_of_digits (group m 2)
      in if start_num \<le> end_num \<and> end_num - start_num \<le> 20
         then map pour_label [start_num..<Suc end_num] else [])"

definition small_pours :: "string list \<Rightarrow> string list" where
  "small_pours numbers =
     map pour_label (filter (\<lambda>num. num \<le> 50) (map int_of_digits numbers))"

definition list_pours :: "captures \<Rightarrow> string list" where
  "list_pours m = small_pours (map (\<lambda>n. group n 0) (findall digits (group m 1)))"

definition extract_pours :: "string \<Rightarrow> string list" where
  "extract_pours description =
     (if research common_pattern description \<noteq> None then [''Common'']
      else
        let pours1 = concat (map expand_range (findall range_pattern description));
            pours2 = (if pours1 = []
                      then concat (map list_pours (findall list_pattern description))
                      else pours1);
            pours3 = (if pours2 = []
                      then small_pours (map (\<lambda>m. group m 1)
                             (findall individual_pattern description))
                      else pours2)
        in if pours3 = [] then [''Common''] else sort (remdups pours3))"

text \<open>\<^verbatim>\<open>s.zfill(2)\<close> on a run of digits, and tower categorization, lines 399 to 438.\<close>

definition zfill2 :: "string \<Rightarrow> string" where
  "zfill2 s = replicate (2 - length s) CHR ''0'' @ s"

definition tower_of :: "string \<Rightarrow> string" where
  "tower_of description =
     (if contains description ''eden clubhouse'' \<or> contains description ''eden-clubhouse''
         \<or> contains description ''eden club''
      then ''Eden-Club''
      else
        let tower_matches = findall tower_pattern description in
        case research multiple_tower_pattern description of
          Some m \<Rightarrow> ''Eden-Tower-'' @ zfill2 (group m 2) @ ''-'' @ zfill2 (group m 5) @ ''-CommonArea''
        | None \<Rightarrow>
            if research flat_no_pattern description \<noteq> None \<and> tower_matches \<noteq> []
            then ''Eden-Tower-'' @ zfill2 (group (hd tower_matches) 2)
            else if contains description ''common area'' \<or> tower_matches = []
            then ''Common_Area''
            else ''Eden-Tower-'' @ zfill2 (group (hd tower_matches) 2))"

section \<open>Decimal numerals\<close>

declare show_nat.simps [simp del]
declare findall.simps [simp del]

lemma is_digit_lower [simp]: "is_digit c \<Longrightarrow> lower_char c = c"
  by (auto simp: is_digit_def lower_char_def Let_def)

lemma is_digit_not_space [simp]: "is_digit c \<Longrightarrow> \<not> is_space c"
  by (auto simp: is_digit_def is_space_def Let_def)

lemma is_digit_digit_char [simp]: "n < 10 \<Longrightarrow> is_digit (digit_char n)"
  by (simp add: is_digit_def digit_char_def)

lemma of_char_digit_char [simp]: "n < 10 \<Longrightarrow> of_char (digit_char n) = 48 + n"
  by (simp add: digit_char_def)

lemma show_nat_digits: "list_all is_digit (show_nat n)"
  by (induction n rule: show_nat.induct) (subst show_nat.simps, simp)

lemma show_nat_not_Nil [simp]: "show_nat n \<noteq> []"
  by (subst show_nat.simps) simp

lemma int_of_digits_snoc:
  "int_of_digits (ds @ [c]) = 10 * int_of_digits ds + (of_char c - 48)"
  by (simp add: int_of_digits_def)

lemma int_of_digits_show_nat [simp]: "int_of_digits (show_nat n) = n"
proof (induction n rule: show_nat.induct)
  case (1 n)
  show ?case
  proof (cases "n < 10")
    case True
    then show ?thesis
      by (subst show_nat.simps) (simp add: int_of_digits_def)
  next
    case False
    with 1 show ?thesis
      by (subst show_nat.simps) (simp add: int_of_digits_snoc)
  qed
qed

lemma show_nat_inj: "show_nat m = show_nat n \<Longrightarrow> m = n"
  by (metis int_of_digits_show_nat)

section \<open>The first match and the set of matches\<close>

text \<open>\<open>first_is r s c y\<close>: the matcher's first (reported) result for \<open>r\<close> on \<open>s\<close> is \<open>y\<close>.\<close>

definition first_is :: "regex \<Rightarrow> string \<Rightarrow> captures \<Rightarrow> string \<times> captures \<Rightarrow> bool" where
  "first_is r s c y \<longleftrightarrow> (\<exists>zs. rmatch r s c = y # zs)"

lemma first_Str: "starts_with (lower s) (lower k) \<Longrightarrow> first_is (Str k) s c (drop (length k) s, c)"
  by (simp add: first_is_def)

lemma first_Alt1: "first_is a s c y \<Longrightarrow> first_is (Alt a b) s c y"
  by (auto simp: first_is_def)

lemma first_Seq:
  "first_is a s c (s1, c1) \<Longrightarrow> first_is b s1 c1 y \<Longrightarrow> first_is (Seq a b) s c y"
  by (auto simp: first_is_def)

lemma first_Group:
  "first_is r s c (s', c') \<Longrightarrow>
   first_is (Group i r) s c (s', (i, take (length s - length s') s) # c')"
  by (auto simp: first_is_def)

lemma star_splits_first:
  "list_all (in_class cls) pre \<Longrightarrow> (rest = [] \<or> \<not> in_class cls (hd rest)) \<Longrightarrow>
   \<exists>zs. star_splits cls (pre @ rest) = rest # zs"
proof (induction pre)
  case Nil
  then show ?case by (cases rest) auto
next
  case (Cons x pre)
  then show ?case by auto
qed

lemma first_Star:
  "list_all (in_class cls) pre \<Longrightarrow> (rest = [] \<or> \<not> in_class cls (hd rest)) \<Longrightarrow>
   first_is (Star cls) (pre @ rest) c (rest, c)"
  using star_splits_first [of cls pre rest] by (auto simp: first_is_def)

lemma first_Plus:
  "pre \<noteq> [] \<Longrightarrow> list_all (in_class cls) pre \<Longrightarrow> (rest = [] \<or> \<not> in_class cls (hd rest)) \<Longrightarrow>
   first_is (Plus cls) (pre @ rest) c (rest, c)"
  using star_splits_first [of cls "tl pre" rest]
  by (cases pre) (auto simp: first_is_def)

lemma star_splits_mem:
  "t \<in> set (star_splits cls s) \<Longrightarrow> \<exists>pre. s = pre @ t \<and> list_all (in_class cls) pre"
proof (induction s)
  case Nil
  then show ?case by simp
next
  case (Cons x s)
  show ?case
  proof (cases "t = x # s")
    case True
    then show ?thesis by (intro exI [of _ "[]"]) simp
  next
    case False
    with Cons.prems have x: "in_class cls x" and "t \<in> set (star_splits cls s)"
      by (auto split: if_splits)
    with Cons.IH obtain pre where "s = pre @ t" "list_all (in_class cls) pre" by blast
    with x show ?thesis by (intro exI [of _ "x # pre"]) simp
  qed
qed

lemma star_splits_all:
  "list_all (in_class cls) pre \<Longrightarrow> rest \<in> set (star_splits cls (pre @ rest))"
proof (induction pre)
  case Nil
  then show ?case by (cases rest) auto
next
  case (Cons x pre)
  then show ?case by auto
qed

lemma set_rmatch_Seq:
  "set (rmatch (Seq a b) s c) = (\<Union>(s1, c1) \<in> set (rmatch a s c). set (rmatch b s1 c1))"
  by auto

lemma research_None_iff:
  "research r s = None \<longleftrightarrow> (\<forall>i \<le> length s. rmatch r (drop i s) [] = [])"
proof (induction s)
  case Nil
  then show ?case by (auto split: list.splits)
next
  case (Cons x xs)
  have "(\<forall>i \<le> length (x # xs). rmatch r (drop i (x # xs)) [] = []) \<longleftrightarrow>
        rmatch r (x # xs) [] = [] \<and> (\<forall>i \<le> length xs. rmatch r (drop i xs) [] = [])"
    (is "?L \<longleftrightarrow> ?R")
  proof
    assume l: ?L
    have "rmatch r (x # xs) [] = []" using l [rule_format, of 0] by simp
    moreover have "\<forall>i \<le> length xs. rmatch r (drop i xs) [] = []"
      using l by (auto dest: spec [of _ "Suc _"])
    ultimately show ?R by simp
  next
    assume r: ?R
    show ?L
    proof (intro allI impI)
      fix i assume "i \<le> length (x # xs)"
      then show "rmatch r (drop i (x # xs)) [] = []"
        using r by (cases i) auto
    qed
  qed
  with Cons show ?case by (auto split: list.splits)
qed

lemma research_Some:
  "research r s = Some c \<Longrightarrow> \<exists>i s'. (s', c) \<in> set (rmatch r (drop i s) [])"
proof (induction s)
  case Nil
  then show ?case by (auto split: list.splits)
next
  case (Cons x xs)
  show ?case
  proof (cases "rmatch r (x # xs) []")
    case Nil
    with Cons obtain i s' where "(s', c) \<in> set (rmatch r (drop i xs) [])" by auto
    then have "(s', c) \<in> set (rmatch r (drop (Suc i) (x # xs)) [])" by simp
    then show ?thesis by blast
  next
    case (Cons p ps)
    with Cons.prems have "(fst p, c) \<in> set (rmatch r (drop 0 (x # xs)) [])"
      by (cases p) auto
    then show ?thesis by blast
  qed
qed

lemma starts_with_iff: "starts_with s k \<longleftrightarrow> (\<exists>rest. s = k @ rest)"
  by (induction s k rule: starts_with.induct) auto

lemma contains_iff: "contains s k \<longleftrightarrow> (\<exists>pre rest. s = pre @ k @ rest)"
proof (induction s)
  case Nil
  then show ?case by auto
next
  case (Cons x s)
  show ?case
  proof
    assume "contains (x # s) k"
    then consider "starts_with (x # s) k" | "contains s k" by auto
    then show "\<exists>pre rest. x # s = pre @ k @ rest"
    proof cases
      case 1
      then obtain rest where "x # s = k @ rest" using starts_with_iff by blast
      then have "x # s = [] @ k @ rest" by simp
      then show ?thesis by blast
    next
      case 2
      with Cons obtain pre rest where "s = pre @ k @ rest" by blast
      then have "x # s = (x # pre) @ k @ rest" by simp
      then show ?thesis by blast
    qed
  next
    assume "\<exists>pre rest. x # s = pre @ k @ rest"
    then obtain pre rest where e: "x # s = pre @ k @ rest" by blast
    show "contains (x # s) k"
    proof (cases pre)
      case Nil
      with e have "starts_with (x # s) k" using starts_with_iff by force
      then show ?thesis by simp
    next
      case (Cons y pre')
      with e have "s = pre' @ k @ rest" by simp
      with Cons.IH have "contains s k" by blast
      then show ?thesis by simp
    qed
  qed
qed

lemma rmatch_Str_prefix:
  "starts_with (lower (k @ rest)) (lower k)"
  by (simp add: lower_def starts_with_iff)

lemma rmatch_Str_append [simp]: "rmatch (Str k) (k @ rest) c = [(rest, c)]"
  by (simp add: rmatch_Str_prefix)

lemma seqs3 [simp]: "seqs [a, b, c] = Seq a (Seq b c)"
  by simp

declare rmatch.simps [simp del]

lemma research_found:
  "rmatch r t [] \<noteq> [] \<Longrightarrow> research r (pre @ t) \<noteq> None"
proof -
  assume a: "rmatch r t [] \<noteq> []"
  have "drop (length pre) (pre @ t) = t" by simp
  with a have "\<exists>i \<le> length (pre @ t). rmatch r (drop i (pre @ t)) [] \<noteq> []"
    by (intro exI [of _ "length pre"]) simp
  then show ?thesis using research_None_iff by blast
qed

lemma common_area_found:
  assumes "contains d ''common area''"
  shows "research common_pattern d \<noteq> None"
proof -
  from assms obtain pre rest where d: "d = pre @ ''common area'' @ rest"
    using contains_iff by blast
  have "rmatch (Str ''common area'') (''common area'' @ rest) [] \<noteq> []"
    by (simp only: rmatch_Str_append) simp
  then have "rmatch common_pattern (''common area'' @ rest) [] \<noteq> []"
    by (simp add: common_pattern_def rmatch.simps(7))
  then show ?thesis unfolding d by (rule research_found)
qed

lemma flat_no_match:
  assumes "list_all is_space ws"
  shows "rmatch (seqs [Str ''flat'', Star [Space], Str ''no'']) (''flat'' @ ws @ ''no'' @ rest) c \<noteq> []"
proof -
  have 1: "(ws @ ''no'' @ rest, c) \<in> set (rmatch (Str ''flat'') (''flat'' @ ws @ ''no'' @ rest) c)"
    by (simp only: rmatch_Str_append) simp
  have "list_all (in_class [Space]) ws"
    using assms by (simp add: in_class_def list_all_iff)
  then have 2: "(''no'' @ rest, c) \<in> set (rmatch (Star [Space]) (ws @ ''no'' @ rest) c)"
    using star_splits_all [of "[Space]" ws "''no'' @ rest"] by (simp add: rmatch.simps(3))
  have 3: "(rest, c) \<in> set (rmatch (Str ''no'') (''no'' @ rest) c)"
    by (simp only: rmatch_Str_append) simp
  from 2 3 have "(rest, c) \<in> set (rmatch (Seq (Star [Space]) (Str ''no'')) (ws @ ''no'' @ rest) c)"
    unfolding set_rmatch_Seq by blast
  with 1 have "(rest, c) \<in> set (rmatch (Seq (Str ''flat'') (Seq (Star [Space]) (Str ''no'')))
      (''flat'' @ ws @ ''no'' @ rest) c)"
    unfolding set_rmatch_Seq by blast
  then show ?thesis by auto
qed

lemma flat_no_found:
  assumes "list_all is_space ws" "contains d (''flat'' @ ws @ ''no'')"
  shows "research common_pattern d \<noteq> None" "research flat_no_pattern d \<noteq> None"
proof -
  from assms obtain pre rest where d: "d = pre @ (''flat'' @ ws @ ''no'') @ rest"
    using contains_iff by blast
  then have d': "d = pre @ (''flat'' @ ws @ ''no'' @ rest)" by simp
  have m: "rmatch (seqs [Str ''flat'', Star [Space], Str ''no'']) (''flat'' @ ws @ ''no'' @ rest) [] \<noteq> []"
    using flat_no_match [OF assms(1)] by blast
  then have "rmatch common_pattern (''flat'' @ ws @ ''no'' @ rest) [] \<noteq> []"
    by (simp add: common_pattern_def rmatch.simps(7))
  then show "research common_pattern d \<noteq> None"
    unfolding d' by (rule research_found)
  from m have "rmatch flat_no_pattern (''flat'' @ ws @ ''no'' @ rest) [] \<noteq> []"
    by (simp add: flat_no_pattern_def)
  then show "research flat_no_pattern d \<noteq> None"
    unfolding d' by (rule research_found)
qed

lemma extract_pours_common:
  "research common_pattern d \<noteq> None \<Longrightarrow> extract_pours d = [''Common'']"
  by (simp add: extract_pours_def)

lemma lower_contains: "contains s k \<Longrightarrow> contains (lower s) (lower k)"
  unfolding contains_iff lower_def by (metis map_append)

lemma in_class_Digit [simp]: "in_class [Digit] x = is_digit x"
  by (simp add: in_class_def)

lemma space_is_space [simp]: "is_space CHR '' ''"
  by code_simp

lemma space_not_digit [simp]: "\<not> is_digit CHR '' ''"
  by code_simp

lemma lower_dash [simp]: "lower_char CHR ''-'' = CHR ''-''"
  by code_simp

lemma dash_not_digit [simp]: "\<not> is_digit CHR ''-''"
  by code_simp

lemma dash_space_space [simp]: "in_class [Lit CHR ''-'', Space] CHR '' ''"
  by (simp add: in_class_def)

lemma dash_space_digit [simp]: "is_digit x \<Longrightarrow> \<not> in_class [Lit CHR ''-'', Space] x"
  by (auto simp: in_class_def)

lemma dash_space_t [simp]: "\<not> in_class [Lit CHR ''-'', Space] CHR ''t''"
  by code_simp

lemma hd_digits: "a \<noteq> [] \<Longrightarrow> list_all is_digit a \<Longrightarrow> is_digit (hd (a @ rest))"
  by (cases a) auto

lemma first_pour_word: "first_is pour_word (''pour'' @ rest) c (rest, c)"
  using rmatch_Str_append [of "''pour''" rest c]
  by (simp add: first_is_def pour_word_def rmatch.simps(7))

lemma first_to: "first_is to_or_dash (''to'' @ rest) c (rest, c)"
  using rmatch_Str_append [of "''to''" rest c]
  by (simp add: first_is_def to_or_dash_def rmatch.simps(7))

lemma first_dash_space_one:
  "rest = [] \<or> \<not> in_class [Lit CHR ''-'', Space] (hd rest) \<Longrightarrow>
   first_is dash_space ('' '' @ rest) c (rest, c)"
  using first_Star [of "[Lit CHR ''-'', Space]" "'' ''" rest c]
  by (simp add: dash_space_def)

lemma first_digits_group:
  "a \<noteq> [] \<Longrightarrow> list_all is_digit a \<Longrightarrow> rest = [] \<or> \<not> is_digit (hd rest) \<Longrightarrow>
   first_is (Group i digits) (a @ rest) c (rest, (i, a) # c)"
  using first_Group [OF first_Plus [of a "[Digit]" rest c], of i]
  by (simp add: digits_def list_all_iff)

lemma range_first:
  assumes a: "a \<noteq> []" "list_all is_digit a" and b: "b \<noteq> []" "list_all is_digit b"
  shows "first_is range_pattern (''pour '' @ a @ '' to '' @ b) [] ([], [(2, b), (1, a)])"
proof -
  have 7: "first_is (Group 2 digits) b [(1, a)] ([], [(2, b), (1, a)])"
    using first_digits_group [OF b, of "[]" 2 "[(1, a)]"] by simp
  have 6: "first_is dash_space ('' '' @ b) [(1, a)] (b, [(1, a)])"
    using hd_digits [OF b, of "[]"] by (intro first_dash_space_one) simp
  have 5: "first_is to_or_dash (''to'' @ '' '' @ b) [(1, a)] ('' '' @ b, [(1, a)])"
    by (rule first_to)
  have 4: "first_is dash_space ('' '' @ ''to'' @ '' '' @ b) [(1, a)] (''to'' @ '' '' @ b, [(1, a)])"
    by (intro first_dash_space_one) simp
  have 3: "first_is (Group 1 digits) (a @ '' '' @ ''to'' @ '' '' @ b) []
      ('' '' @ ''to'' @ '' '' @ b, [(1, a)])"
    by (intro first_digits_group a) simp
  have 2: "first_is dash_space ('' '' @ a @ '' '' @ ''to'' @ '' '' @ b) []
      (a @ '' '' @ ''to'' @ '' '' @ b, [])"
    using hd_digits [OF a] by (intro first_dash_space_one) simp
  have 1: "first_is pour_word (''pour'' @ '' '' @ a @ '' '' @ ''to'' @ '' '' @ b) []
      ('' '' @ a @ '' '' @ ''to'' @ '' '' @ b, [])"
    by (rule first_pour_word)
  have "first_is (seqs [pour_word, dash_space, Group 1 digits, dash_space, to_or_dash,
      dash_space, Group 2 digits]) (''pour'' @ '' '' @ a @ '' '' @ ''to'' @ '' '' @ b) []
      ([], [(2, b), (1, a)])"
    unfolding seqs.simps
    by (rule first_Seq [OF 1] first_Seq [OF 2] first_Seq [OF 3] first_Seq [OF 4]
        first_Seq [OF 5] first_Seq [OF 6] 7)+
  then show ?thesis by (simp add: range_pattern_def)
qed

lemma rmatch_Str_hd:
  "rmatch (Str (k # ks)) t c \<noteq> [] \<Longrightarrow> t \<noteq> [] \<and> lower_char (hd t) = lower_char k"
  by (cases t) (auto simp: rmatch.simps(1) lower_def split: if_splits)

lemma rmatch_Seq_Nil: "rmatch a t c = [] \<Longrightarrow> rmatch (Seq a b) t c = []"
  by (simp add: rmatch.simps(6))

lemma rmatch_Group_Nil: "rmatch a t c = [] \<Longrightarrow> rmatch (Group i a) t c = []"
  by (simp add: rmatch.simps(8))

lemma lower_p [simp]: "lower_char CHR ''p'' = CHR ''p''"
  by code_simp

lemma lower_t [simp]: "lower_char CHR ''t'' = CHR ''t''"
  by code_simp

lemma lower_c [simp]: "lower_char CHR ''c'' = CHR ''c''"
  by code_simp

lemma lower_f [simp]: "lower_char CHR ''f'' = CHR ''f''"
  by code_simp

lemma pour_word_hd:
  "rmatch pour_word t c \<noteq> [] \<Longrightarrow> t \<noteq> [] \<and> lower_char (hd t) = CHR ''p''"
  using rmatch_Str_hd [of "CHR ''p''" "''our''" t c] rmatch_Str_hd [of "CHR ''p''" "[]" t c]
  by (auto simp: pour_word_def rmatch.simps(7))

lemma tower_word_hd:
  "rmatch tower_word t c \<noteq> [] \<Longrightarrow> t \<noteq> [] \<and> lower_char (hd t) = CHR ''t''"
  using rmatch_Str_hd [of "CHR ''t''" "''ower''" t c] rmatch_Str_hd [of "CHR ''t''" "[]" t c]
  by (auto simp: tower_word_def rmatch.simps(7))

text \<open>\<open>starts_on r F\<close>: \<open>r\<close> only matches at a character that lower-cases into \<open>F\<close>.\<close>

definition starts_on :: "regex \<Rightarrow> char set \<Rightarrow> bool" where
  "starts_on r F \<longleftrightarrow> (\<forall>t c. rmatch r t c \<noteq> [] \<longrightarrow> t \<noteq> [] \<and> lower_char (hd t) \<in> F)"

lemma starts_on_Seq: "starts_on a F \<Longrightarrow> starts_on (Seq a b) F"
  unfolding starts_on_def using rmatch_Seq_Nil by blast

lemma starts_on_pour_word: "starts_on pour_word {CHR ''p''}"
  unfolding starts_on_def using pour_word_hd by blast

lemma starts_on_range: "starts_on range_pattern {CHR ''p''}"
  unfolding range_pattern_def seqs.simps by (intro starts_on_Seq starts_on_pour_word)

lemma starts_on_list: "starts_on list_pattern {CHR ''p''}"
  unfolding list_pattern_def seqs.simps by (intro starts_on_Seq starts_on_pour_word)

lemma starts_on_individual: "starts_on individual_pattern {CHR ''p''}"
  unfolding individual_pattern_def seqs.simps by (intro starts_on_Seq starts_on_pour_word)

lemma starts_on_common: "starts_on common_pattern {CHR ''c'', CHR ''f''}"
proof -
  have "t \<noteq> [] \<and> lower_char (hd t) \<in> {CHR ''c'', CHR ''f''}" if "rmatch common_pattern t c \<noteq> []" for t c
  proof -
    from that consider "rmatch (Str ''common area'') t c \<noteq> []" | "rmatch (Str ''flat'') t c \<noteq> []"
      unfolding common_pattern_def seqs.simps
      by (metis append_Nil rmatch.simps(7) rmatch_Seq_Nil)
    then show ?thesis
      using rmatch_Str_hd [of "CHR ''c''" "''ommon area''" t c]
        rmatch_Str_hd [of "CHR ''f''" "''lat''" t c]
      by cases auto
  qed
  then show ?thesis unfolding starts_on_def by blast
qed

lemma findall_Nil:
  assumes "starts_on r F" "\<forall>x \<in> set s. lower_char x \<notin> F"
  shows "findall r s = []"
  using assms(2)
proof (induction s)
  case Nil
  have "rmatch r [] [] = []" using assms(1) unfolding starts_on_def by blast
  then show ?case by (subst findall.simps) simp
next
  case (Cons x xs)
  have "rmatch r (x # xs) [] = []"
    using assms(1) Cons.prems unfolding starts_on_def by fastforce
  with Cons show ?case by (subst findall.simps) simp
qed

lemma research_None:
  assumes "starts_on r F" "\<forall>x \<in> set s. lower_char x \<notin> F"
  shows "research r s = None"
proof -
  have "rmatch r (drop i s) [] = []" for i
  proof (rule ccontr)
    assume "rmatch r (drop i s) [] \<noteq> []"
    with assms(1) have "drop i s \<noteq> []" "lower_char (hd (drop i s)) \<in> F"
      unfolding starts_on_def by blast+
    moreover from this(1) have "hd (drop i s) \<in> set s"
      by (metis hd_in_set in_set_dropD)
    ultimately show False using assms(2) by blast
  qed
  then show ?thesis using research_None_iff by blast
qed

lemma findall_single:
  assumes "first_is r s [] ([], c)" "s \<noteq> []" "starts_on r F"
  shows "findall r s = [(0, s) # c]"
proof -
  from assms(1) obtain zs where "rmatch r s [] = ([], c) # zs"
    unfolding first_is_def by blast
  moreover have "findall r [] = []"
    using findall_Nil [OF assms(3), of "[]"] by simp
  ultimately show ?thesis
    using assms(2) by (subst findall.simps) simp
qed

lemma digit_lower_neq:
  "is_digit x \<Longrightarrow> lower_char x \<noteq> CHR ''c'' \<and> lower_char x \<noteq> CHR ''f'' \<and> lower_char x \<noteq> CHR ''p''"
  by (auto simp: is_digit_def Let_def)

lemma lower_range_text_chars:
  "lower_char CHR ''o'' = CHR ''o''" "lower_char CHR ''u'' = CHR ''u''"
  "lower_char CHR ''r'' = CHR ''r''" "lower_char CHR '' '' = CHR '' ''"
  by code_simp+

lemma lower_digits: "list_all is_digit a \<Longrightarrow> lower a = a"
  by (simp add: lower_def list_all_iff map_idI)

lemma range_text_no_common:
  assumes "list_all is_digit a" "list_all is_digit b"
  shows "research common_pattern (''pour '' @ a @ '' to '' @ b) = None"
proof (rule research_None [OF starts_on_common])
  show "\<forall>x\<in>set (''pour '' @ a @ '' to '' @ b). lower_char x \<notin> {CHR ''c'', CHR ''f''}"
    using assms digit_lower_neq by (auto simp: list_all_iff lower_range_text_chars)
qed

lemma lower_range_text:
  assumes "list_all is_digit a" "list_all is_digit b"
  shows "lower (''pour '' @ a @ '' to '' @ b) = ''pour '' @ a @ '' to '' @ b"
  using lower_digits [OF assms(1)] lower_digits [OF assms(2)]
  by (simp add: lower_def lower_range_text_chars)

lemma group_simps [simp]:
  "group ((i, g) # c) j = (if i = j then g else group c j)"
  by (simp add: group_def)

lemma pour_label_inj: "inj pour_label"
  by (auto simp: inj_def pour_label_def dest: show_nat_inj)

lemma extract_pours_range:
  assumes "N \<le> M" "M - N \<le> 20"
  shows "extract_pours (''pour '' @ show_nat N @ '' to '' @ show_nat M)
     = sort (map pour_label [N..<Suc M])"
proof -
  let ?s = "''pour '' @ show_nat N @ '' to '' @ show_nat M"
  have rf: "first_is range_pattern ?s [] ([], [(2, show_nat M), (1, show_nat N)])"
    by (intro range_first show_nat_digits show_nat_not_Nil)
  have f: "findall range_pattern ?s = [[(0, ?s), (2, show_nat M), (1, show_nat N)]]"
    by (rule findall_single [OF rf _ starts_on_range]) simp
  have e: "expand_range [(0, ?s), (2, show_nat M), (1, show_nat N)] = map pour_label [N..<Suc M]"
    using assms by (simp add: expand_range_def del: upt_Suc)
  have ne: "map pour_label [N..<Suc M] \<noteq> []"
    using assms by simp
  have "inj_on pour_label (set [N..<Suc M])"
    using pour_label_inj by (rule inj_on_subset) simp
  then have d: "remdups (map pour_label [N..<Suc M]) = map pour_label [N..<Suc M]"
    by (intro distinct_remdups_id) (simp add: distinct_map del: upt_Suc)
  have "extract_pours ?s = sort (remdups (map pour_label [N..<Suc M]))"
    unfolding extract_pours_def range_text_no_common [OF show_nat_digits show_nat_digits] f
    using e ne by (simp add: Let_def del: upt_Suc)
  with d show ?thesis by (simp only:)
qed

lemma extract_pours_nothing:
  "research common_pattern d = None \<Longrightarrow> findall range_pattern d = [] \<Longrightarrow>
   findall list_pattern d = [] \<Longrightarrow> findall individual_pattern d = [] \<Longrightarrow>
   extract_pours d = [''Common'']"
  by (simp add: extract_pours_def small_pours_def)

lemma findall_first:
  assumes "first_is r s [] (s', c)" "length s' < length s"
  shows "findall r s = ((0, take (length s - length s') s) # c) # findall r s'"
proof -
  from assms(1) obtain zs where "rmatch r s [] = (s', c) # zs"
    unfolding first_is_def by blast
  then show ?thesis
    using assms(2) by (subst findall.simps) simp
qed

lemma findall_first_prefix:
  assumes "first_is r (m @ s') [] (s', c)" "m \<noteq> []"
  shows "findall r (m @ s') = ((0, m) # c) # findall r s'"
  using findall_first [OF assms(1)] assms(2) by simp

lemma list_class_digit [simp]:
  "is_digit x \<Longrightarrow> in_class [Digit, Lit CHR '','', Space, Lit CHR ''&'', Lit CHR ''a'',
     Lit CHR ''n'', Lit CHR ''d''] x"
  by (simp add: in_class_def)

lemma list_class_space [simp]:
  "in_class [Digit, Lit CHR '','', Space, Lit CHR ''&'', Lit CHR ''a'', Lit CHR ''n'',
     Lit CHR ''d''] CHR '' ''"
  by (simp add: in_class_def)

lemma list_class_t [simp]:
  "\<not> in_class [Digit, Lit CHR '','', Space, Lit CHR ''&'', Lit CHR ''a'', Lit CHR ''n'',
     Lit CHR ''d''] CHR ''t''"
  by code_simp

lemma list_first:
  assumes a: "a \<noteq> []" "list_all is_digit a"
  shows "first_is list_pattern (''pour '' @ a @ '' to '' @ b) [] (''to '' @ b, [(1, a @ '' '')])"
proof -
  let ?cls = "[Digit, Lit CHR '','', Space, Lit CHR ''&'', Lit CHR ''a'', Lit CHR ''n'',
     Lit CHR ''d'']"
  have "list_all (in_class ?cls) (a @ '' '')"
    using a(2) by (simp add: list_all_iff)
  then have "first_is (Plus ?cls) ((a @ '' '') @ ''to '' @ b) [] (''to '' @ b, [])"
    by (intro first_Plus) simp_all
  from first_Group [OF this, of 1]
  have 3: "first_is (Group 1 (Plus ?cls)) (a @ '' '' @ ''to '' @ b) []
      (''to '' @ b, [(1, a @ '' '')])"
    by simp
  have 2: "first_is dash_space ('' '' @ a @ '' '' @ ''to '' @ b) [] (a @ '' '' @ ''to '' @ b, [])"
    using hd_digits [OF a] by (intro first_dash_space_one) simp
  have 1: "first_is pour_word (''pour'' @ '' '' @ a @ '' '' @ ''to '' @ b) []
      ('' '' @ a @ '' '' @ ''to '' @ b, [])"
    by (rule first_pour_word)
  have "first_is (seqs [pour_word, dash_space, Group 1 (Plus ?cls)])
      (''pour'' @ '' '' @ a @ '' '' @ ''to '' @ b) [] (''to '' @ b, [(1, a @ '' '')])"
    unfolding seqs.simps
    by (rule first_Seq [OF 1] first_Seq [OF 2] 3)+
  then show ?thesis by (simp add: list_pattern_def)
qed

lemma findall_digits_one:
  assumes a: "a \<noteq> []" "list_all is_digit a"
  shows "findall digits (a @ '' '') = [[(0, a)]]"
proof -
  have f: "first_is digits (a @ '' '') [] ('' '', [])"
    unfolding digits_def using a by (intro first_Plus) (simp_all add: list_all_iff)
  have "findall digits '' '' = []"
    by code_simp
  with findall_first_prefix [OF f a(1)] show ?thesis by simp
qed

lemma small_pours_one: "N \<le> 50 \<Longrightarrow> small_pours [show_nat N] = [pour_label N]"
  by (simp add: small_pours_def)

lemma lower_o [simp]: "lower_char CHR ''o'' = CHR ''o''"
  by code_simp

lemma lower_space [simp]: "lower_char CHR '' '' = CHR '' ''"
  by code_simp

lemma extract_pours_wide_range:
  assumes "N \<le> 50" "M - N > 20"
  shows "extract_pours (''pour '' @ show_nat N @ '' to '' @ show_nat M) = [pour_label N]"
proof -
  let ?s = "''pour '' @ show_nat N @ '' to '' @ show_nat M"
  have rf: "first_is range_pattern ?s [] ([], [(2, show_nat M), (1, show_nat N)])"
    by (intro range_first show_nat_digits show_nat_not_Nil)
  have f: "findall range_pattern ?s = [[(0, ?s), (2, show_nat M), (1, show_nat N)]]"
    by (rule findall_single [OF rf _ starts_on_range]) simp
  have e: "expand_range [(0, ?s), (2, show_nat M), (1, show_nat N)] = []"
    using assms by (simp add: expand_range_def)
  have lf: "first_is list_pattern ?s [] (''to '' @ show_nat M, [(1, show_nat N @ '' '')])"
    by (intro list_first show_nat_digits show_nat_not_Nil)
  have rest: "findall list_pattern (''to '' @ show_nat M) = []"
  proof (rule findall_Nil [OF starts_on_list])
    show "\<forall>x\<in>set (''to '' @ show_nat M). lower_char x \<notin> {CHR ''p''}"
      using show_nat_digits [of M] digit_lower_neq by (auto simp: list_all_iff)
  qed
  have "first_is list_pattern ((''pour '' @ show_nat N @ '' '') @ ''to '' @ show_nat M) []
      (''to '' @ show_nat M, [(1, show_nat N @ '' '')])"
    using lf by simp
  from findall_first_prefix [OF this]
  have l: "findall list_pattern ?s
      = [[(0, ''pour '' @ show_nat N @ '' ''), (1, show_nat N @ '' '')]]"
    using rest by simp
  have lp: "list_pours [(0, ''pour '' @ show_nat N @ '' ''), (1, show_nat N @ '' '')]
      = [pour_label N]"
    using assms(1)
    by (simp add: list_pours_def findall_digits_one show_nat_digits small_pours_one)
  show ?thesis
    unfolding extract_pours_def range_text_no_common [OF show_nat_digits show_nat_digits] f l
    using e lp by (simp add: Let_def)
qed

lemma extract_pours_one_range:
  assumes "research common_pattern e = None" "findall range_pattern e = [m]"
    "int_of_digits (group m 1) \<le> int_of_digits (group m 2)"
    "int_of_digits (group m 2) - int_of_digits (group m 1) \<le> 20"
  shows "set (extract_pours e) = pour_label ` {int_of_digits (group m 1)..int_of_digits (group m 2)}"
proof -
  let ?N = "int_of_digits (group m 1)" and ?M = "int_of_digits (group m 2)"
  have e: "expand_range m = map pour_label [?N..<Suc ?M]"
    using assms(3,4) by (simp add: expand_range_def Let_def del: upt_Suc)
  have ne: "map pour_label [?N..<Suc ?M] \<noteq> []"
    using assms(3) by simp
  have "extract_pours e = sort (remdups (map pour_label [?N..<Suc ?M]))"
    unfolding extract_pours_def assms(1,2)
    using e ne by (simp add: Let_def del: upt_Suc)
  then have "set (extract_pours e) = pour_label ` set [?N..<Suc ?M]"
    by (simp del: upt_Suc)
  also have "set [?N..<Suc ?M] = {?N..?M}"
    by auto
  finally show ?thesis .
qed

section \<open>Claims about pour extraction\<close>



text \<open>The result of pour extraction when the range pattern has contributed nothing.\<close>

definition later_tiers :: "string \<Rightarrow> string list" where
  "later_tiers d =
     (let listed = concat (map list_pours (findall list_pattern d));
          single = small_pours (map (\<lambda>m. group m 1) (findall individual_pattern d))
      in if listed \<noteq> [] then sort (remdups listed)
         else if single \<noteq> [] then sort (remdups single)
         else [''Common''])"

text \<open>
  C5.  When the only match of the range pattern spans more than 20 pours, the range
  contributes no pours and the result is what the list pattern, and after it the
  individual pattern, give (\<open>later_tiers\<close>).  For instance every description
  \<open>pour N to M\<close> with \<open>M - N > 20\<close> and \<open>N \<le> 50\<close> yields the single pour \<open>P N\<close>, which
  the list pattern reads from the text before \<open>to\<close>.
\<close>

theorem C5_wide_range_falls_through:
  "(research common_pattern d = None \<and> findall range_pattern d = [m] \<and>
    int_of_digits (group m 2) - int_of_digits (group m 1) > 20
      \<longrightarrow> expand_range m = [] \<and> extract_pours d = later_tiers d) \<and>
   (N \<le> 50 \<and> M - N > 20
      \<longrightarrow> extract_pours (lower (''pour '' @ show_nat N @ '' to '' @ show_nat M)) = [pour_label N])"
proof (intro conjI impI)
  assume a: "research common_pattern d = None \<and> findall range_pattern d = [m] \<and>
    int_of_digits (group m 2) - int_of_digits (group m 1) > 20"
  then show e: "expand_range m = []"
    by (simp add: expand_range_def Let_def)
  with a show "extract_pours d = later_tiers d"
    by (simp add: extract_pours_def later_tiers_def Let_def)
next
  assume a: "N \<le> 50 \<and> M - N > 20"
  let ?s = "''pour '' @ show_nat N @ '' to '' @ show_nat M"
  have l: "lower ?s = ?s"
    by (rule lower_range_text [OF show_nat_digits show_nat_digits])
  show "extract_pours (lower ?s) = [pour_label N]"
    unfolding l using a by (intro extract_pours_wide_range) simp_all
qed

theorem C5_witness:
  "expand_range [(0, ''pour 1 to 30''), (2, ''30''), (1, ''1'')] = [] \<and>
   extract_pours ''pour 1 to 30'' = later_tiers ''pour 1 to 30'' \<and>
   extract_pours (lower (''pour '' @ show_nat 1 @ '' to '' @ show_nat 30)) = [pour_label 1]"
proof -
  have h1: "research common_pattern ''pour 1 to 30'' = None"
    by code_simp
  have h2: "findall range_pattern ''pour 1 to 30'' = [[(0, ''pour 1 to 30''), (2, ''30''), (1, ''1'')]]"
    by code_simp
  have h3: "int_of_digits (group [(0, ''pour 1 to 30''), (2, ''30''), (1, ''1'')] 2)
      - int_of_digits (group [(0, ''pour 1 to 30''), (2, ''30''), (1, ''1'')] 1) > 20"
    by code_simp
  have h4: "(1::nat) \<le> 50 \<and> (30::nat) - 1 > 20"
    by simp
  from C5_wide_range_falls_through [of "''pour 1 to 30''" "[(0, ''pour 1 to 30''), (2, ''30''), (1, ''1'')]" 1 30]
  show ?thesis
    using h1 h2 h3 h4 by blast
qed

section \<open>The record normalizer\<close>

text \<open>
  The input of \<^verbatim>\<open>generate_ncr_report_for_eden\<close>: a table whose rows carry the six columns
  that \<^verbatim>\<open>process_json_data\<close> builds.  Dates are day numbers (\<open>None\<close> for \<^verbatim>\<open>NaT\<close>),
  \<open>row_Days\<close> is the \<^verbatim>\<open>Days\<close> column (\<open>None\<close> for \<^verbatim>\<open>NaN\<close>), and a description or
  discipline that the source system did not supply is \<open>None\<close>.
\<close>

record raw_row =
  row_Description :: "string option"
  row_Discipline :: "string option"
  row_Created :: "int option"
  row_Expected_Close :: "int option"
  row_Status :: string
  row_Days :: "int option"

record dataframe =
  df_columns :: "string list"
  df_rows :: "raw_row list"

text \<open>
  A date parameter: absent, given but rejected by \<^verbatim>\<open>pd.to_datetime\<close>, or a date.  The
  result of \<^verbatim>\<open>get_access_token\<close>, and the dictionary the function returns: the
  \<^verbatim>\<open>{"error": msg}\<close> payload or \<^verbatim>\<open>{report_type: aggregate}\<close>.
\<close>

datatype date_arg = Not_Given | Unparseable | Date int

datatype token_result = Token_Granted | Token_Missing | Token_Failed string

datatype payload = Error_Payload string | Report string aggregate

text \<open>\<^verbatim>\<open>str(record.get(key, ""))\<close>, and the text of a list of strings in an f-string.\<close>

definition py_str :: "string option \<Rightarrow> string" where
  "py_str v = (case v of None \<Rightarrow> ''None'' | Some s \<Rightarrow> s)"

definition py_repr_list :: "string list \<Rightarrow> string" where
  "py_repr_list xs =
     ''['' @ concat (map (\<lambda>(i, x). (if i = 0 then [] else '', '') @ [CHR 0x27] @ x @ [CHR 0x27])
                     (enumerate 0 xs)) @ '']''"

text \<open>
  One turn of the cleaning loop, lines 308 to 442, on a row of \<^verbatim>\<open>processed_data\<close> and
  its \<^verbatim>\<open>Days_From_Today\<close> (Open reports).  \<open>None\<close> is a \<^verbatim>\<open>continue\<close>.  \<^verbatim>\<open>int\<close> does not
  raise on a run of digits (the interpreter's limit on the length of a numeral is not
  modelled), so the handlers of the loop are never reached.
\<close>

definition clean_record :: "string \<Rightarrow> raw_row \<times> int option \<Rightarrow> cleaned_record option" where
  "clean_record report_type rd =
     (let record = fst rd;
          cleaned = \<lparr>Description = py_str (row_Description record),
                     Discipline = py_str (row_Discipline record),
                     Created_Date = row_Created record,
                     Expected_Close_Date = row_Expected_Close record,
                     Status = row_Status record,
                     Days = (case row_Days record of None \<Rightarrow> 0 | Some d \<Rightarrow> d),
                     Tower = ''External Development'',
                     Days_From_Today =
                       (if report_type = ''Open''
                        then Some (case snd rd of None \<Rightarrow> 0 | Some d \<Rightarrow> d) else None),
                     Pours = [],
                     Discipline_Category = []\<rparr>;
          description = lower (Description cleaned)
      in if description = [] then None
         else
           let with_pours = cleaned\<lparr>Pours := extract_pours description\<rparr>
           in case categorize_discipline (Discipline with_pours) of
                Invalid_Discipline \<Rightarrow> None
              | HSE_Skipped \<Rightarrow> None
              | Kept category \<Rightarrow>
                  Some (with_pours\<lparr>Discipline_Category := category,
                                    Tower := tower_of description\<rparr>))"

definition clean_rows :: "string \<Rightarrow> (raw_row \<times> int option) list \<Rightarrow> cleaned_record list" where
  "clean_rows report_type processed_data = List.map_filter (clean_record report_type) processed_data"

text \<open>
  De-duplication, lines 444 to 450:
  \<^verbatim>\<open>[dict(t) for t in {tuple(sorted(d.items())) for d in cleaned_data}]\<close> inside a
  \<^verbatim>\<open>try\<close> whose handler keeps \<^verbatim>\<open>cleaned_data\<close> as it is.  Building the set hashes every
  tuple of items, and hashing a tuple hashes the values in it: a list is not hashable
  and raises \<^verbatim>\<open>TypeError\<close>.  The order in which a set is iterated is not modelled beyond
  keeping first occurrences.
\<close>

datatype py_value = Str_Value string | Int_Value int | None_Value | List_Value "string list"

definition hashable :: "py_value \<Rightarrow> bool" where
  "hashable v = (case v of List_Value _ \<Rightarrow> False | _ \<Rightarrow> True)"

definition date_value :: "int option \<Rightarrow> py_value" where
  "date_value d = (case d of None \<Rightarrow> Str_Value ''NaT'' | Some n \<Rightarrow> Int_Value n)"

definition record_items :: "cleaned_record \<Rightarrow> (string \<times> py_value) list" where
  "record_items d =
     [(''Description'', Str_Value (Description d)),
      (''Discipline'', Str_Value (Discipline d)),
      (''Created Date (WET)'', date_value (Created_Date d)),
      (''Expected Close Date (WET)'', date_value (Expected_Close_Date d)),
      (''Status'', Str_Value (Status d)),
      (''Days'', Int_Value (Days d)),
      (''Tower'', Str_Value (Tower d))]
     @ (case Days_From_Today d of None \<Rightarrow> [] | Some n \<Rightarrow> [(''Days_From_Today'', Int_Value n)])
     @ [(''Pours'', List_Value (Pours d)),
        (''Discipline_Category'', Str_Value (Discipline_Category d))]"

definition remove_duplicates :: "cleaned_record list \<Rightarrow> cleaned_record list" where
  "remove_duplicates cleaned_data =
     (if list_all (\<lambda>d. list_all (\<lambda>(k, v). hashable v) (record_items d)) cleaned_data
      then remdups cleaned_data
      else cleaned_data)"

text \<open>
  Filtering, lines 225 to 284.  A comparison with \<^verbatim>\<open>NaT\<close> or \<^verbatim>\<open>NaN\<close> is false.
\<close>

definition list_min :: "int list \<Rightarrow> int option" where
  "list_min xs = (case xs of [] \<Rightarrow> None | x # rest \<Rightarrow> Some (fold min rest x))"

definition list_max :: "int list \<Rightarrow> int option" where
  "list_max xs = (case xs of [] \<Rightarrow> None | x # rest \<Rightarrow> Some (fold max rest x))"

definition not_before :: "int option \<Rightarrow> int option \<Rightarrow> bool" where
  "not_before d bound = (case (d, bound) of (Some x, Some b) \<Rightarrow> x \<ge> b | _ \<Rightarrow> False)"

definition not_after :: "int option \<Rightarrow> int option \<Rightarrow> bool" where
  "not_after d bound = (case (d, bound) of (Some x, Some b) \<Rightarrow> x \<le> b | _ \<Rightarrow> False)"

definition exceeds_21 :: "int option \<Rightarrow> bool" where
  "exceeds_21 v = (case v of None \<Rightarrow> False | Some d \<Rightarrow> d > 21)"

definition days_between :: "raw_row \<Rightarrow> int option" where
  "days_between r =
     (case (row_Expected_Close r, row_Created r) of
        (Some closed, Some created) \<Rightarrow> Some (closed - created)
      | _ \<Rightarrow> None)"

definition closed_rows :: "dataframe \<Rightarrow> date_arg \<Rightarrow> date_arg
    \<Rightarrow> report_error + (raw_row \<times> int option) list" where
  "closed_rows df start_date end_date =
     (let df1 = filter (\<lambda>r. row_Created r \<noteq> None) (df_rows df)
      in if ''Expected Close Date (WET)'' \<notin> set (df_columns df)
         then Inl (Error ''Missing Expected Close Date column'')
         else if start_date = Unparseable \<or> end_date = Unparseable
         then Inl (Error ''Invalid date range'')
         else
           let start = (case start_date of
                          Date d \<Rightarrow> Some d
                        | _ \<Rightarrow> list_min (List.map_filter row_Created df1));
               end = (case end_date of
                        Date d \<Rightarrow> Some d
                      | _ \<Rightarrow> list_max (List.map_filter row_Expected_Close df1));
               df2 = filter (\<lambda>r. row_Expected_Close r \<noteq> None) df1;
               df3 = (if ''Days'' \<in> set (df_columns df) then df2
                      else map (\<lambda>r. r\<lparr>row_Days := days_between r\<rparr>) df2)
           in Inr (map (\<lambda>r. (r, None))
                (filter (\<lambda>r. row_Status r = ''Closed'' \<and>
                              not_before (row_Created r) start \<and>
                              not_after (row_Created r) end \<and>
                              exceeds_21 (row_Days r)) df3)))"

definition open_rows :: "dataframe \<Rightarrow> date_arg \<Rightarrow> report_error + (raw_row \<times> int option) list" where
  "open_rows df until_date =
     (let df1 = filter (\<lambda>r. row_Created r \<noteq> None) (df_rows df)
      in case until_date of
           Not_Given \<Rightarrow> Inl (Error ''Open Until Date is required'')
         | Unparseable \<Rightarrow> Inl (Error ''Invalid Open Until Date'')
         | Date today \<Rightarrow>
             Inr (filter (\<lambda>(r, days_from_today). exceeds_21 days_from_today)
               (map (\<lambda>r. (r, map_option (\<lambda>created. today - created) (row_Created r)))
                 (filter (\<lambda>r. row_Status r = ''Open'' \<and> row_Created r \<noteq> None) df1))))"

text \<open>Lines 203 to 284: validation, then the filter of the report type.\<close>

definition filter_stage :: "dataframe option \<Rightarrow> string \<Rightarrow> date_arg \<Rightarrow> date_arg \<Rightarrow> date_arg
    \<Rightarrow> report_error + (raw_row \<times> int option) list" where
  "filter_stage df report_type start_date end_date until_date =
     (case df of
        None \<Rightarrow> Inl (Error ''Empty DataFrame'')
      | Some df \<Rightarrow>
          if df_rows df = [] \<or> df_columns df = [] then Inl (Error ''Empty DataFrame'')
          else if report_type \<noteq> ''Open'' \<and> report_type \<noteq> ''Closed''
          then Inl (Error ''Invalid report_type'')
          else
            let missing_columns = filter (\<lambda>col. col \<notin> set (df_columns df))
                                    [''Created Date (WET)'', ''Status'']
            in if missing_columns \<noteq> []
               then Inl (Error (''Missing columns: '' @ py_repr_list missing_columns))
               else if report_type = ''Closed'' then closed_rows df start_date end_date
               else open_rows df until_date)"

text \<open>
  The whole function.  Chunk size, token and the replies of the completion service are
  parameters.
\<close>

definition generate_ncr_report_for_eden :: "dataframe option \<Rightarrow> string \<Rightarrow> date_arg \<Rightarrow> date_arg
    \<Rightarrow> date_arg \<Rightarrow> token_result \<Rightarrow> int \<Rightarrow> (nat \<Rightarrow> remote_reply) \<Rightarrow> payload" where
  "generate_ncr_report_for_eden df report_type start_date end_date until_date token chunk_size
     replies =
     (case filter_stage df report_type start_date end_date until_date of
        Inl (Error msg) \<Rightarrow> Error_Payload msg
      | Inr filtered \<Rightarrow>
          if filtered = []
          then Error_Payload (''No '' @ report_type @ '' records found with duration > 21 days'')
          else
            let cleaned_data = remove_duplicates (clean_rows report_type filtered)
            in if cleaned_data = [] then Report report_type empty_aggregate
               else case token of
                      Token_Missing \<Rightarrow> Error_Payload ''Failed to obtain access token''
                    | Token_Failed e \<Rightarrow> Error_Payload (''Failed to obtain access token: '' @ e)
                    | Token_Granted \<Rightarrow>
                        (case aggregate_chunks chunk_size replies cleaned_data of
                           Inl (Error msg) \<Rightarrow> Error_Payload msg
                         | Inr all_results \<Rightarrow> Report report_type all_results))"

definition report_grand_total :: "payload \<Rightarrow> int option" where
  "report_grand_total p = (case p of Error_Payload _ \<Rightarrow> None | Report _ a \<Rightarrow> Some (Grand_Total a))"

text \<open>Example tables.\<close>

definition all_columns :: "string list" where
  "all_columns = [''Days'', ''Created Date (WET)'', ''Expected Close Date (WET)'',
     ''Description'', ''Status'', ''Discipline'']"

definition late_close_row :: raw_row where
  "late_close_row = \<lparr>row_Description = Some ''Crack in slab at tower 4'',
     row_Discipline = Some ''SW'', row_Created = Some 0, row_Expected_Close = Some 60,
     row_Status = ''Closed'', row_Days = Some 60\<rparr>"

definition open_row :: raw_row where
  "open_row = \<lparr>row_Description = Some ''Crack in slab at tower 4'',
     row_Discipline = Some ''SW'', row_Created = Some 0, row_Expected_Close = None,
     row_Status = ''Open'', row_Days = None\<rparr>"

definition tower_123_row :: raw_row where
  "tower_123_row = \<lparr>row_Description = Some ''Crack at Tower 123'',
     row_Discipline = Some ''SW'', row_Created = Some 0, row_Expected_Close = Some 60,
     row_Status = ''Closed'', row_Days = Some 60\<rparr>"

definition hse_row :: raw_row where
  "hse_row = \<lparr>row_Description = Some ''No helmet at tower 4'',
     row_Discipline = Some ''HSE'', row_Created = Some 0, row_Expected_Close = Some 60,
     row_Status = ''Closed'', row_Days = Some 60\<rparr>"

definition table_of :: "raw_row list \<Rightarrow> dataframe option" where
  "table_of rs = Some \<lparr>df_columns = all_columns, df_rows = rs\<rparr>"

section \<open>Claims about the normalizer\<close>

lemma remove_duplicates_id: "remove_duplicates cleaned_data = cleaned_data"
proof (cases cleaned_data)
  case Nil
  then show ?thesis by (simp add: remove_duplicates_def)
next
  case (Cons d ds)
  have "\<not> list_all (\<lambda>(k, v). hashable v) (record_items d)"
    by (simp add: record_items_def hashable_def)
  with Cons show ?thesis by (simp add: remove_duplicates_def)
qed

text \<open>
  C7.  The Closed filter compares the creation date, not the close date, with the upper
  bound of the window: a record created on day 0 and closed on day 60 is retained for
  the window from day 0 to day 30.
\<close>

theorem C7_late_close_retained:
  "filter_stage (table_of [late_close_row]) ''Closed'' (Date 0) (Date 30) Not_Given
     = Inr [(late_close_row, None)] \<and>
   row_Expected_Close late_close_row = Some 60"
  by code_simp

lemma closed_rows_kept:
  assumes "closed_rows df start_date end_date = Inr kept" "(r, x) \<in> set kept"
  shows "row_Status r = ''Closed'' \<and> row_Created r \<noteq> None \<and> row_Expected_Close r \<noteq> None \<and>
    exceeds_21 (row_Days r) \<and>
    (\<forall>d. start_date = Date d \<longrightarrow> not_before (row_Created r) (Some d)) \<and>
    (\<forall>d. end_date = Date d \<longrightarrow> not_after (row_Created r) (Some d))"
  using assms
  by (auto simp: closed_rows_def Let_def split: if_splits)

text \<open>
  C8, as the code has it.  When the filter leaves no row the function returns an error
  payload, with the message \<open>No <report type> records found with duration > 21 days\<close>.
  The empty aggregate \<open>{report_type: {Sites: {}, Grand_Total: 0}}\<close> is returned when the
  filter leaves rows and cleaning leaves none.
\<close>

theorem C8_empty_filter_payload:
  "(filter_stage df report_type start_date end_date until_date = Inr []
      \<longrightarrow> generate_ncr_report_for_eden df report_type start_date end_date until_date token
            chunk_size replies
          = Error_Payload (''No '' @ report_type @ '' records found with duration > 21 days'')) \<and>
   (filter_stage df report_type start_date end_date until_date = Inr filtered \<and>
    filtered \<noteq> [] \<and> clean_rows report_type filtered = []
      \<longrightarrow> generate_ncr_report_for_eden df report_type start_date end_date until_date token
            chunk_size replies
          = Report report_type empty_aggregate)"
  by (simp add: generate_ncr_report_for_eden_def remove_duplicates_id)

theorem C8_witness:
  "generate_ncr_report_for_eden (table_of [open_row]) ''Closed'' Not_Given Not_Given Not_Given
     Token_Granted 20 (const_replies Request_Exception)
     = Error_Payload (''No '' @ ''Closed'' @ '' records found with duration > 21 days'') \<and>
   generate_ncr_report_for_eden (table_of [hse_row]) ''Closed'' Not_Given Not_Given Not_Given
     Token_Granted 20 (const_replies Request_Exception)
     = Report ''Closed'' empty_aggregate"
proof -
  have h1: "filter_stage (table_of [open_row]) ''Closed'' Not_Given Not_Given Not_Given = Inr []"
    by code_simp
  have h2: "filter_stage (table_of [hse_row]) ''Closed'' Not_Given Not_Given Not_Given
      = Inr [(hse_row, None)]"
    by code_simp
  have h3: "clean_rows ''Closed'' [(hse_row, None)] = []"
    by code_simp
  from C8_empty_filter_payload [of "table_of [open_row]" "''Closed''" Not_Given Not_Given Not_Given
      Token_Granted 20 "const_replies Request_Exception"]
    C8_empty_filter_payload [of "table_of [hse_row]" "''Closed''" Not_Given Not_Given Not_Given
      Token_Granted 20 "const_replies Request_Exception" "[(hse_row, None)]"]
  show ?thesis
    using h1 h2 h3 by simp
qed

text \<open>
  C8 as stated fails: a table with one Open row, asked for the Closed report, gives a
  payload under the \<open>error\<close> key.
\<close>

theorem C8_counterexample:
  "generate_ncr_report_for_eden (table_of [open_row]) ''Closed'' Not_Given Not_Given Not_Given
     Token_Granted 20 (const_replies Request_Exception)
     = Error_Payload ''No Closed records found with duration > 21 days''"
  by code_simp

text \<open>
  C9.  Every cleaned record holds its pours as a list, so the set of item tuples cannot
  be built and the handler keeps all records (\<open>remove_duplicates_id\<close>): two identical
  rows give a grand total of 2.
\<close>

theorem C9_duplicates_survive:
  "report_grand_total (generate_ncr_report_for_eden (table_of [late_close_row, late_close_row])
     ''Closed'' Not_Given Not_Given Not_Given Token_Granted 20 (const_replies Request_Exception))
     = Some 2"
  by code_simp

section \<open>The shape of a cleaned record\<close>

primrec groups_of :: "regex \<Rightarrow> nat set" where
  "groups_of (Str k) = {}"
| "groups_of (One cls) = {}"
| "groups_of (Star cls) = {}"
| "groups_of (Plus cls) = {}"
| "groups_of (Opt r) = groups_of r"
| "groups_of (Seq r1 r2) = groups_of r1 \<union> groups_of r2"
| "groups_of (Alt r1 r2) = groups_of r1 \<union> groups_of r2"
| "groups_of (Group i r) = insert i (groups_of r)"
| "groups_of (Not_Ahead r) = {}"

definition tower_form :: "(string \<Rightarrow> bool) \<Rightarrow> string \<Rightarrow> bool" where
  "tower_form number t \<longleftrightarrow>
     t = ''Eden-Club'' \<or> t = ''Common_Area'' \<or>
     (\<exists>a. number a \<and> t = ''Eden-Tower-'' @ a) \<or>
     (\<exists>a b. number a \<and> number b \<and> t = ''Eden-Tower-'' @ a @ ''-'' @ b @ ''-CommonArea'')"

definition two_digits :: "string \<Rightarrow> bool" where
  "two_digits a \<longleftrightarrow> length a = 2 \<and> list_all is_digit a"

definition padded_number :: "string \<Rightarrow> bool" where
  "padded_number a \<longleftrightarrow> 2 \<le> length a \<and> list_all is_digit a"

definition pours_ok :: "string list \<Rightarrow> bool" where
  "pours_ok ps \<longleftrightarrow>
     ps \<noteq> [] \<and>
     (ps = [''Common''] \<or>
      (sorted ps \<and> distinct ps \<and> list_all (\<lambda>p. \<exists>n. p = pour_label n) ps))"

lemma rmatch_frame:
  "j \<notin> groups_of r \<Longrightarrow> (s', c') \<in> set (rmatch r s c) \<Longrightarrow> group c' j = group c j"
proof (induction r arbitrary: s c s' c')
  case (Seq r1 r2)
  from Seq.prems(2) obtain s1 c1 where
    1: "(s1, c1) \<in> set (rmatch r1 s c)" and 2: "(s', c') \<in> set (rmatch r2 s1 c1)"
    unfolding set_rmatch_Seq by blast
  from Seq.prems(1) have "j \<notin> groups_of r1" "j \<notin> groups_of r2" by simp_all
  with Seq.IH 1 2 show ?case by metis
next
  case (Group i r)
  from Group.prems(2) obtain c'' where
    1: "(s', c'') \<in> set (rmatch r s c)" and 2: "c' = (i, take (length s - length s') s) # c''"
    by (auto simp: rmatch.simps)
  from Group.prems(1) have "j \<noteq> i" "j \<notin> groups_of r" by simp_all
  with Group.IH 1 2 show ?case by simp
qed (auto simp: rmatch.simps split: if_splits list.splits)

definition ends_digits :: "nat \<Rightarrow> regex \<Rightarrow> bool" where
  "ends_digits i r \<longleftrightarrow>
     (\<forall>s c s' c'. (s', c') \<in> set (rmatch r s c) \<longrightarrow> list_all is_digit (group c' i))"

lemma ends_digits_Group: "ends_digits i (Group i digits)"
proof -
  have "list_all is_digit (group c' i)" if m: "(s', c') \<in> set (rmatch (Group i digits) s c)"
    for s c s' c'
  proof -
    from m obtain x xs where s: "s = x # xs" and x: "is_digit x"
      and t: "s' \<in> set (star_splits [Digit] xs)"
      and c': "c' = (i, take (length s - length s') s) # c"
      by (auto simp: rmatch.simps digits_def split: list.splits if_splits)
    from star_splits_mem [OF t] obtain pre where
      xs: "xs = pre @ s'" and pre: "list_all (in_class [Digit]) pre" by blast
    have "take (length s - length s') s = x # pre"
      unfolding s xs by simp
    with c' x pre show ?thesis by (simp add: list_all_iff)
  qed
  then show ?thesis unfolding ends_digits_def by blast
qed

lemma ends_digits_Seq2: "ends_digits i b \<Longrightarrow> ends_digits i (Seq a b)"
  unfolding ends_digits_def set_rmatch_Seq by blast

lemma ends_digits_Seq1:
  assumes "ends_digits i a" "i \<notin> groups_of b"
  shows "ends_digits i (Seq a b)"
proof -
  have "list_all is_digit (group c' i)" if m: "(s', c') \<in> set (rmatch (Seq a b) s c)"
    for s c s' c'
  proof -
    from m obtain s1 c1 where
      1: "(s1, c1) \<in> set (rmatch a s c)" and 2: "(s', c') \<in> set (rmatch b s1 c1)"
      unfolding set_rmatch_Seq by blast
    from assms(1) 1 have "list_all is_digit (group c1 i)"
      unfolding ends_digits_def by blast
    with rmatch_frame [OF assms(2) 2] show ?thesis by simp
  qed
  then show ?thesis unfolding ends_digits_def by blast
qed

lemma tower_pattern_digits: "ends_digits 2 tower_pattern"
  unfolding tower_pattern_def seqs.simps
  by (intro ends_digits_Seq2 ends_digits_Group)

lemma multiple_tower_pattern_digits:
  "ends_digits 2 multiple_tower_pattern" "ends_digits 5 multiple_tower_pattern"
proof -
  show "ends_digits 5 multiple_tower_pattern"
    unfolding multiple_tower_pattern_def seqs.simps
    by (intro ends_digits_Seq2 ends_digits_Group)
  show "ends_digits 2 multiple_tower_pattern"
    unfolding multiple_tower_pattern_def seqs.simps
    by (rule ends_digits_Seq2, rule ends_digits_Seq2, rule ends_digits_Seq2,
        rule ends_digits_Seq2, rule ends_digits_Seq1 [OF ends_digits_Group])
       (simp add: tower_word_def digits_def)
qed

lemma findall_mem:
  "m \<in> set (findall r s) \<Longrightarrow> \<exists>t s' c g. m = (0, g) # c \<and> (s', c) \<in> set (rmatch r t [])"
proof (induction r s rule: findall.induct)
  case (1 r s)
  note unfold = findall.simps [of r s]
  show ?case
  proof (cases "rmatch r s []")
    case Nil
    show ?thesis
    proof (cases s)
      case empty: Nil
      have "findall r s = []"
        unfolding unfold using Nil empty by simp
      with "1.prems" show ?thesis by simp
    next
      case (Cons x xs)
      have "findall r s = findall r xs"
        unfolding unfold using Nil Cons by simp
      with "1.prems" have "m \<in> set (findall r xs)" by simp
      with "1.IH"(1) [OF Nil Cons] show ?thesis .
    qed
  next
    case (Cons p ps)
    obtain s' c where p: "p = (s', c)" by (cases p)
    let ?m = "(0, take (length s - length s') s) # c"
    from Cons p have here: "(s', c) \<in> set (rmatch r s [])" by simp
    show ?thesis
    proof (cases "length s' < length s")
      case True
      have "findall r s = ?m # findall r s'"
        unfolding unfold using Cons p True by simp
      with "1.prems" consider "m = ?m" | "m \<in> set (findall r s')" by auto
      then show ?thesis
      proof cases
        case 1
        with here show ?thesis by blast
      next
        case 2
        with "1.IH"(2) [OF Cons p [symmetric] True] show ?thesis .
      qed
    next
      case False
      show ?thesis
      proof (cases s)
        case empty: Nil
        have "findall r s = [?m]"
          unfolding unfold using Cons p False empty by simp
        with "1.prems" have "m = ?m" by simp
        with here show ?thesis by blast
      next
        case more: (Cons x xs)
        have "findall r s = ?m # findall r xs"
          unfolding unfold using Cons p False more by simp
        with "1.prems" consider "m = ?m" | "m \<in> set (findall r xs)" by auto
        then show ?thesis
        proof cases
          case 1
          with here show ?thesis by blast
        next
          case 2
          with "1.IH"(3) [OF Cons p [symmetric] False more] show ?thesis .
        qed
      qed
    qed
  qed
qed

lemma zero_is_digit [simp]: "is_digit CHR ''0''"
  by code_simp

lemma zfill2_padded: "list_all is_digit g \<Longrightarrow> padded_number (zfill2 g)"
  by (auto simp: padded_number_def zfill2_def list_all_iff)

lemma research_digits:
  assumes "ends_digits i r" "research r s = Some m"
  shows "list_all is_digit (group m i)"
proof -
  from research_Some [OF assms(2)] obtain j s' where "(s', m) \<in> set (rmatch r (drop j s) [])"
    by blast
  with assms(1) show ?thesis unfolding ends_digits_def by blast
qed

lemma findall_digits:
  assumes "ends_digits i r" "m \<in> set (findall r s)" "i \<noteq> 0"
  shows "list_all is_digit (group m i)"
proof -
  from findall_mem [OF assms(2)] obtain t s' c g where
    m: "m = (0, g) # c" and c: "(s', c) \<in> set (rmatch r t [])"
    by blast
  from assms(1) c have "list_all is_digit (group c i)"
    unfolding ends_digits_def by blast
  with m assms(3) show ?thesis by simp
qed

lemma tower_of_form: "tower_form padded_number (tower_of d)"
proof -
  have first: "padded_number (zfill2 (group (hd (findall tower_pattern d)) 2))"
    if "findall tower_pattern d \<noteq> []"
  proof -
    from that have "hd (findall tower_pattern d) \<in> set (findall tower_pattern d)" by simp
    from findall_digits [OF tower_pattern_digits this] show ?thesis
      by (intro zfill2_padded) simp
  qed
  have both: "padded_number (zfill2 (group m 2)) \<and> padded_number (zfill2 (group m 5))"
    if "research multiple_tower_pattern d = Some m" for m
    using research_digits [OF multiple_tower_pattern_digits(1) that]
      research_digits [OF multiple_tower_pattern_digits(2) that]
    by (simp add: zfill2_padded)
  show ?thesis
  proof (cases "contains d ''eden clubhouse'' \<or> contains d ''eden-clubhouse''
      \<or> contains d ''eden club''")
    case True
    then show ?thesis by (simp add: tower_of_def tower_form_def)
  next
    case False
    note not_club = this
    show ?thesis
    proof (cases "research multiple_tower_pattern d")
      case (Some m)
      from both [OF Some] have "tower_form padded_number
          (''Eden-Tower-'' @ zfill2 (group m 2) @ ''-'' @ zfill2 (group m 5) @ ''-CommonArea'')"
        unfolding tower_form_def by blast
      with not_club Some show ?thesis by (simp add: tower_of_def Let_def)
    next
      case None
      show ?thesis
      proof (cases "findall tower_pattern d = []")
        case True
        with not_club None show ?thesis by (simp add: tower_of_def Let_def tower_form_def)
      next
        case False
        from first [OF False] have "tower_form padded_number
            (''Eden-Tower-'' @ zfill2 (group (hd (findall tower_pattern d)) 2))"
          unfolding tower_form_def by blast
        moreover have "tower_form padded_number ''Common_Area''"
          by (simp add: tower_form_def)
        ultimately show ?thesis
          using not_club None False by (simp add: tower_of_def Let_def)
      qed
    qed
  qed
qed

lemma labels_expand_range: "list_all (\<lambda>p. \<exists>n. p = pour_label n) (expand_range m)"
  by (auto simp: expand_range_def Let_def list_all_iff)

lemma labels_small_pours: "list_all (\<lambda>p. \<exists>n. p = pour_label n) (small_pours ns)"
  by (auto simp: small_pours_def list_all_iff)

lemma labels_concat:
  "(\<And>x. list_all P (f x)) \<Longrightarrow> list_all P (concat (map f xs))"
  by (induction xs) (auto simp: list_all_iff)

lemma pours_ok_sorted:
  assumes "list_all (\<lambda>p. \<exists>n. p = pour_label n) ps" "ps \<noteq> []"
  shows "pours_ok (sort (remdups ps))"
proof -
  have "sort (remdups ps) \<noteq> []"
    using assms(2) by (metis remdups_eq_nil_iff set_empty set_sort)
  moreover have "list_all (\<lambda>p. \<exists>n. p = pour_label n) (sort (remdups ps))"
    using assms(1) by (simp add: list_all_iff)
  ultimately show ?thesis
    by (simp add: pours_ok_def)
qed

lemma extract_pours_ok: "pours_ok (extract_pours d)"
proof (cases "research common_pattern d")
  case (Some m)
  then show ?thesis by (simp add: extract_pours_def pours_ok_def)
next
  case None
  define pours1 where "pours1 = concat (map expand_range (findall range_pattern d))"
  define pours2 where "pours2 = (if pours1 = []
      then concat (map list_pours (findall list_pattern d)) else pours1)"
  define pours3 where "pours3 = (if pours2 = []
      then small_pours (map (\<lambda>m. group m 1) (findall individual_pattern d)) else pours2)"
  have 1: "list_all (\<lambda>p. \<exists>n. p = pour_label n) pours1"
    unfolding pours1_def by (intro labels_concat labels_expand_range)
  have 2: "list_all (\<lambda>p. \<exists>n. p = pour_label n) pours2"
    unfolding pours2_def using 1
    by (simp add: labels_concat list_pours_def labels_small_pours)
  have 3: "list_all (\<lambda>p. \<exists>n. p = pour_label n) pours3"
    unfolding pours3_def using 2 by (simp add: labels_small_pours)
  have "extract_pours d = (if pours3 = [] then [''Common''] else sort (remdups pours3))"
    unfolding extract_pours_def pours3_def pours2_def pours1_def
    by (simp only: None Let_def simp_thms if_False)
  then show ?thesis
    using pours_ok_sorted [OF 3] by (simp add: pours_ok_def)
qed

text \<open>
  C10, as the code has it.  Every record that survives cleaning in the NCR path has a non-empty
  \<^verbatim>\<open>Pours\<close> list that is either exactly \<^verbatim>\<open>["Common"]\<close> or a lexicographically sorted
  list of distinct labels \<^verbatim>\<open>P<n>\<close>, and a \<^verbatim>\<open>Tower\<close> that is \<^verbatim>\<open>Eden-Club\<close>,
  \<^verbatim>\<open>Common_Area\<close>, \<^verbatim>\<open>Eden-Tower-<N>\<close> or \<^verbatim>\<open>Eden-Tower-<N>-<M>-CommonArea\<close>. The
  numbers are runs of digits padded with zeros to at least two digits: \<^verbatim>\<open>zfill(2)\<close> pads a
  single digit and leaves a longer run as it is, so a tower number of three digits is kept
  whole and the numbers are not always of two digits.
\<close>

theorem C10_classifier_output_shape:
  "clean_record report_type rd = Some r \<Longrightarrow>
     pours_ok (Pours r) \<and> tower_form padded_number (Tower r)"
  using extract_pours_ok tower_of_form
  by (auto simp: clean_record_def Let_def split: if_splits discipline_outcome.splits)

theorem C10_witness:
  "pours_ok [''P10'', ''P11'', ''P9''] \<and> tower_form padded_number ''Eden-Tower-04-05-CommonArea''"
proof -
  let ?row = "\<lparr>row_Description = Some ''Tower 4 & 5: pour 9 to 11 honeycomb'',
     row_Discipline = Some ''Structure'', row_Created = Some 0, row_Expected_Close = Some 40,
     row_Status = ''Closed'', row_Days = Some 40\<rparr>"
  let ?r = "\<lparr>Description = ''Tower 4 & 5: pour 9 to 11 honeycomb'', Discipline = ''Structure'',
     Created_Date = Some 0, Expected_Close_Date = Some 40, Status = ''Closed'', Days = 40,
     Tower = ''Eden-Tower-04-05-CommonArea'', Days_From_Today = None,
     Pours = [''P10'', ''P11'', ''P9''], Discipline_Category = ''SW''\<rparr>"
  have h: "clean_record ''Closed'' (?row, None) = Some ?r"
    by code_simp
  from C10_classifier_output_shape [OF h] show ?thesis by simp
qed

text \<open>
  C10 as stated fails: a description naming tower 123 is cleaned to the tower
  \<^verbatim>\<open>Eden-Tower-123\<close>, whose number has three digits.
\<close>

theorem C10_counterexample:
  "map_option Tower (clean_record ''Closed'' (tower_123_row, None)) = Some ''Eden-Tower-123'' \<and>
   \<not> tower_form two_digits ''Eden-Tower-123''"
proof -
  have "map_option Tower (clean_record ''Closed'' (tower_123_row, None)) = Some ''Eden-Tower-123''"
    by code_simp
  moreover have "\<not> tower_form two_digits ''Eden-Tower-123''"
    by (auto simp: tower_form_def two_digits_def)
  ultimately show ?thesis by simp
qed

end
